theory Spec2Isabelle
  imports Main "HOL-Library.Word" "HOL-Library.Monad_Syntax"
begin

unbundle bit_operations_syntax

section \<open>The revolute module firmware (main.c)\<close>

text \<open>
  The firmware is a single C file for a PSoC microcontroller.  Its globals become one
  record; every function of main.c becomes a function on that record.  The peripheral
  drivers (receivers, transmitters, timers, dynamic reconfiguration) are generated code
  that main.c only calls; they are modelled from the specification's collaborator
  interface and kept in the same record: what each receiver will deliver, which timers
  run, the GPIO registers, and the trace of driver calls made so far.

  \<^item> \<open>char\<close> is an unsigned byte (the code stores 255 in one and compares it with 255,
    253 and 251), so it is \<open>8 word\<close>; \<open>int\<close> flags and counters are \<open>int\<close> and \<open>nat\<close>.
  \<^item> A function that may spin forever returns \<open>None\<close>: all loops that poll the
    \<open>TIMEOUT\<close> flag are \<^theory_text>\<open>partial_function (option)\<close>.
\<close>

subsection \<open>Constants (the defines of main.c)\<close>

type_synonym byte = "8 word"

definition WAIT :: int where [simp]: "WAIT = 1"
definition MY_RESPONSE :: int where [simp]: "MY_RESPONSE = 2"
definition RESPONSE_1 :: int where [simp]: "RESPONSE_1 = 3"
definition RESPONSE_2 :: int where [simp]: "RESPONSE_2 = 4"
definition RESPONSE_3 :: int where [simp]: "RESPONSE_3 = 5"
definition RESPONSE_4 :: int where [simp]: "RESPONSE_4 = 6"
definition HELLO_MODE :: int where [simp]: "HELLO_MODE = 7"
definition INITIALIZE :: int where [simp]: "INITIALIZE = 8"

definition PORT_A :: byte where [simp]: "PORT_A = 65"
definition PORT_B :: byte where [simp]: "PORT_B = 66"
definition PORT_C :: byte where [simp]: "PORT_C = 67"
definition PORT_D :: byte where [simp]: "PORT_D = 68"

definition START_TRANSMIT :: byte where [simp]: "START_TRANSMIT = 248"
definition END_TRANSMIT :: byte where [simp]: "END_TRANSMIT = 85"
definition HELLO_BYTE :: byte where [simp]: "HELLO_BYTE = 200"
definition ID_ASSIGNMENT :: byte where [simp]: "ID_ASSIGNMENT = 201"
definition ID_ASSIGN_OK :: byte where [simp]: "ID_ASSIGN_OK = 202"
definition PING :: byte where [simp]: "PING = 203"
definition CLEAR_CONFIG :: byte where [simp]: "CLEAR_CONFIG = 204"
definition CONFIG_CLEARED :: byte where [simp]: "CONFIG_CLEARED = 205"
definition MASTER_ID :: byte where [simp]: "MASTER_ID = 0"
definition BROADCAST :: byte where [simp]: "BROADCAST = 254"
definition DEFAULT_ID :: byte where [simp]: "DEFAULT_ID = 251"

definition SERVO_ID_MIN :: byte where [simp]: "SERVO_ID_MIN = 0"
definition SERVO_ID_MAX :: byte where [simp]: "SERVO_ID_MAX = 253"
definition SERVO_START :: byte where [simp]: "SERVO_START = 255"
definition READ_LENGTH :: byte where [simp]: "READ_LENGTH = 4"
definition WRITE_LENGTH :: byte where [simp]: "WRITE_LENGTH = 4"
definition PING_LENGTH :: byte where [simp]: "PING_LENGTH = 2"
definition RESET_LENGTH :: byte where [simp]: "RESET_LENGTH = 2"
definition ID_ADDRESS :: byte where [simp]: "ID_ADDRESS = 3"
definition STATUS_RET_ADDRESS :: byte where [simp]: "STATUS_RET_ADDRESS = 16"
definition PING_SERVO :: byte where [simp]: "PING_SERVO = 1"
definition READ_SERVO :: byte where [simp]: "READ_SERVO = 2"
definition WRITE_SERVO :: byte where [simp]: "WRITE_SERVO = 3"
definition RESET_SERVO :: byte where [simp]: "RESET_SERVO = 6"
definition STATUS_RET_NEVER :: byte where [simp]: "STATUS_RET_NEVER = 0"
definition STATUS_RET_READ :: byte where [simp]: "STATUS_RET_READ = 1"
definition STATUS_RET_ALL :: byte where [simp]: "STATUS_RET_ALL = 2"

definition SERVO_COMM_ATTEMPTS :: nat where [simp]: "SERVO_COMM_ATTEMPTS = 10"
definition STATUS_RET_LEVEL :: byte where [simp]: "STATUS_RET_LEVEL = STATUS_RET_READ"

subsection \<open>Peripherals\<close>

text \<open>
  The user modules main.c names: the receivers it reads, the two transmitter groups,
  the timers whose interrupt handlers it defines, and the loadable configurations.
\<close>

datatype receiver =
  WAIT_RECV | RX8_2 | HELLO_1 | HELLO_2 | HELLO_3 | HELLO_4
  | CHILD_1 | CHILD_2 | CHILD_3 | CHILD_4 | INIT_RX

datatype transmitter = TX_014 | TX_23

datatype timer =
  TX_01234_TIMEOUT | CHILD_1_TIMEOUT | CHILD_2_TIMEOUT | CHILD_3_TIMEOUT
  | CHILD_4_TIMEOUT | HELLO_TIMEOUT | INIT_TIMEOUT

datatype config =
  waiting | my_response | response1 | response2 | response3 | response4 | hello | initial

text \<open>One entry of the trace per driver call.\<close>

datatype event =
  Load config | Unload config
  | RxStart receiver | TxStart transmitter
  | EnableInt timer | TimerStart timer | TimerStop timer
  | Put transmitter byte | TxComplete transmitter
  | EnableGInt | EnableIntMask

subsection \<open>The state: the globals of main.c and the hardware they talk to\<close>

record module =
  CHILD :: byte
  ID :: byte
  CONFIGURED :: int
  TIMEOUT :: int
  STATE :: int
  COMMAND_SOURCE :: byte
  COMMAND_DESTINATION :: byte
  COMMAND_TYPE :: byte
  COMMAND_PARAM :: byte
  COMMAND_LENGTH :: byte
  COMMAND_ERROR :: byte
  SERVO_ID :: byte
  PRT0DR :: byte
  PRT0GS :: byte
  PRT1DR :: byte
  PRT2DR :: byte
  rx :: "receiver \<Rightarrow> byte list"
  rx_peek :: bool
  timers :: "(timer \<times> nat) list"
  period :: "timer \<Rightarrow> nat"
  trace :: "event list"

text \<open>
  \<^item> \<open>rx r\<close> are the bytes receiver \<open>r\<close> has still to deliver, oldest first.
  \<^item> \<open>rx_peek\<close> tells what \<open>cReadChar\<close> does with the byte it returns: leave it to be
    read again, or take it.
  \<^item> \<open>timers\<close> are the timers started and not stopped, each with the units of time left
    before its interrupt; \<open>period t\<close> is the count timer \<open>t\<close> starts from.
  \<^item> \<open>PRT0DR\<close> .. \<open>PRT2DR\<close> are the port registers main.c writes.
  \<^item> \<open>trace\<close> is the list of driver calls made, oldest first.
\<close>

subsection \<open>Interrupts and the TIMEOUT flag (lines 1063-1105)\<close>

text \<open>
  The seven interrupt handlers of main.c are the same: they set \<open>TIMEOUT\<close> (and clear
  their interrupt flag, a register that nothing reads).
\<close>

definition TIMEOUT_ISR :: "module \<Rightarrow> module" where
  "TIMEOUT_ISR s = s\<lparr>TIMEOUT := 1\<rparr>"

text \<open>
  Modelled from the spec: when a timer interrupts.  The handlers run asynchronously to
  the main context, between any two of its steps.  Time is counted in units;
  \<open>time_passes\<close> is one unit: a running timer whose count is zero interrupts (its
  handler runs there and then) and starts again from its period, the others count down
  by one.  With no timer running the flag is never set.  A unit passes at every read of
  \<open>TIMEOUT\<close> by a loop guard (\<open>read_TIMEOUT\<close>) and at every call of a receiver
  (\<open>cReadChar\<close>, \<open>cGetChar\<close>), so that an interrupt can fall between the guard of a
  loop and the statements of its body; \<open>period\<close> is a parameter of the hardware, so
  the interrupt of a timer can fall at any of these points.
\<close>

definition expired :: "(timer \<times> nat) list \<Rightarrow> bool" where
  "expired ts = list_ex (\<lambda>(t, n). n = 0) ts"

definition count_down :: "(timer \<Rightarrow> nat) \<Rightarrow> (timer \<times> nat) list \<Rightarrow> (timer \<times> nat) list" where
  "count_down p ts = map (\<lambda>(t, n). (t, if n = 0 then p t else n - 1)) ts"

definition time_passes :: "module \<Rightarrow> module" where
  "time_passes s =
     (let s1 = (if expired (timers s) then TIMEOUT_ISR s else s)
      in s1\<lparr>timers := count_down (period s) (timers s)\<rparr>)"

definition read_TIMEOUT :: "module \<Rightarrow> module" where
  "read_TIMEOUT s = time_passes s"

subsection \<open>The driver interface\<close>

text \<open>
  main.c calls the drivers of the user modules and defines none of them.  Each call is
  entered in the trace by \<open>emit\<close>; what a call does beyond that follows the
  specification's collaborator interface and role table.
\<close>

definition emit :: "event \<Rightarrow> module \<Rightarrow> module" where
  "emit e s = s\<lparr>trace := trace s @ [e]\<rparr>"

text \<open>
  Modelled from the spec: the receivers' \<open>cReadChar\<close>, a read that does not wait.  With
  nothing received it yields 0, which is none of the bytes main.c compares it with.  The
  collaborator interface calls it a non-destructive peek.  main.c is written for a read
  that takes the byte: it tests a start byte twice, first with \<open>cReadChar\<close> and then with
  \<open>cGetChar\<close> (lines 410-414 and 487-491), and it finds the end of a child's frame with
  \<open>cReadChar\<close> alone (lines 456-480), which a peek at the first byte of that frame
  never reaches.  The hardware's \<open>rx_peek\<close> says which of the two it is.
\<close>

definition cReadChar :: "receiver \<Rightarrow> module \<Rightarrow> byte \<times> module" where
  "cReadChar r s =
     (let s = time_passes s
      in case rx s r of [] \<Rightarrow> (0, s)
         | b # bs \<Rightarrow> (b, if rx_peek s then s else s\<lparr>rx := (rx s)(r := bs)\<rparr>))"

text \<open>
  Modelled from the spec: the receivers' \<open>cGetChar\<close>, a blocking read that consumes the
  byte it returns.  With nothing left to receive it blocks for ever: \<open>None\<close>.
\<close>

definition cGetChar :: "receiver \<Rightarrow> module \<Rightarrow> (byte \<times> module) option" where
  "cGetChar r s =
     (case rx s r of [] \<Rightarrow> None
      | b # bs \<Rightarrow> Some (b, (time_passes s)\<lparr>rx := (rx s)(r := bs)\<rparr>))"

text \<open>Modelled from the spec: the transmitters' \<open>PutChar(b)\<close>, which sends one byte.\<close>

definition TX_PutChar :: "transmitter \<Rightarrow> byte \<Rightarrow> module \<Rightarrow> module" where
  "TX_PutChar t b s = emit (Put t b) s"

text \<open>
  Modelled from the spec: the spin \<open>while(!(bReadTxStatus() & TX_COMPLETE))\<close> that
  follows the bytes of a frame.  The specification has it bounded by the hardware: the
  transmitter finishes what it was given, and the spin is one trace entry.
\<close>

definition TX_wait_complete :: "transmitter \<Rightarrow> module \<Rightarrow> module" where
  "TX_wait_complete t s = emit (TxComplete t) s"

text \<open>Modelled from the spec: \<open>Rx_Start(parity)\<close> and \<open>Tx_Start(parity)\<close>, always without parity.\<close>

definition RX_Start :: "receiver \<Rightarrow> module \<Rightarrow> module" where
  "RX_Start r s = emit (RxStart r) s"

definition TX_Start :: "transmitter \<Rightarrow> module \<Rightarrow> module" where
  "TX_Start t s = emit (TxStart t) s"

text \<open>
  Modelled from the spec: the timers' \<open>EnableInt\<close>, \<open>Start\<close> and \<open>Stop\<close>.  A started
  timer runs from its period; a stopped timer is no longer among the running ones.
  main.c enables a timer's interrupt before each start.
\<close>

definition drop_timer :: "timer \<Rightarrow> (timer \<times> nat) list \<Rightarrow> (timer \<times> nat) list" where
  "drop_timer t ts = filter (\<lambda>(u, n). u \<noteq> t) ts"

definition TIMEOUT_EnableInt :: "timer \<Rightarrow> module \<Rightarrow> module" where
  "TIMEOUT_EnableInt t s = emit (EnableInt t) s"

definition TIMEOUT_Start :: "timer \<Rightarrow> module \<Rightarrow> module" where
  "TIMEOUT_Start t s =
     emit (TimerStart t) (s\<lparr>timers := (t, period s t) # drop_timer t (timers s)\<rparr>)"

definition TIMEOUT_Stop :: "timer \<Rightarrow> module \<Rightarrow> module" where
  "TIMEOUT_Stop t s = emit (TimerStop t) (s\<lparr>timers := drop_timer t (timers s)\<rparr>)"

text \<open>
  Modelled from the spec: the timer of each configuration, after the specification's
  table of roles (none for the waiting role).
\<close>

fun config_timer :: "config \<Rightarrow> timer option" where
  "config_timer waiting = None"
| "config_timer my_response = Some TX_01234_TIMEOUT"
| "config_timer response1 = Some CHILD_1_TIMEOUT"
| "config_timer response2 = Some CHILD_2_TIMEOUT"
| "config_timer response3 = Some CHILD_3_TIMEOUT"
| "config_timer response4 = Some CHILD_4_TIMEOUT"
| "config_timer hello = Some HELLO_TIMEOUT"
| "config_timer initial = Some INIT_TIMEOUT"

text \<open>
  Modelled from the spec: \<open>LoadConfig_X\<close> and \<open>UnloadConfig_X\<close>.  Unloading tears down the
  peripheral set of the configuration, its timer with it.
\<close>

definition LoadConfig :: "config \<Rightarrow> module \<Rightarrow> module" where
  "LoadConfig c s = emit (Load c) s"

definition UnloadConfig :: "config \<Rightarrow> module \<Rightarrow> module" where
  "UnloadConfig c s =
     emit (Unload c)
       (case config_timer c of None \<Rightarrow> s
        | Some t \<Rightarrow> s\<lparr>timers := drop_timer t (timers s)\<rparr>)"

subsection \<open>configToggle (lines 183-399)\<close>

definition unloadAllConfigs :: "module \<Rightarrow> module" where
  "unloadAllConfigs s =
     (let s = UnloadConfig waiting s;
          s = UnloadConfig hello s;
          s = UnloadConfig my_response s;
          s = UnloadConfig response1 s;
          s = UnloadConfig response2 s;
          s = UnloadConfig response3 s;
          s = UnloadConfig response4 s
      in UnloadConfig initial s)"

definition unloadConfig :: "int \<Rightarrow> module \<Rightarrow> module" where
  "unloadConfig config_num s =
     (if config_num = WAIT then UnloadConfig waiting s
      else if config_num = HELLO_MODE then UnloadConfig hello s
      else if config_num = MY_RESPONSE then UnloadConfig my_response s
      else if config_num = RESPONSE_1 then UnloadConfig response1 s
      else if config_num = RESPONSE_2 then UnloadConfig response2 s
      else if config_num = RESPONSE_3 then UnloadConfig response3 s
      else if config_num = RESPONSE_4 then UnloadConfig response4 s
      else if config_num = INITIALIZE then UnloadConfig initial s
      else s)"

text \<open>The empty loop \<open>while(!TIMEOUT)\<close> of the MY_RESPONSE branch (lines 228-232).\<close>

partial_function (option) configToggle_settle :: "module \<Rightarrow> module option" where
  "configToggle_settle s =
     (let s = read_TIMEOUT s
      in if TIMEOUT s \<noteq> 0 then Some s else configToggle_settle s)"

text \<open>
  configToggle runs three stages in a row; each is a definition of its own:
  quiesce the pins and unload the current configuration (lines 187-199), load the
  configuration of \<open>mode\<close> (lines 201-358), reconnect the pins and drive the display
  according to \<open>CONFIGURED\<close> (lines 361-398).
\<close>

definition configToggle_unload :: "module \<Rightarrow> module" where
  "configToggle_unload s =
     (let s = s\<lparr>PRT0DR := PRT0DR s OR 0x1F\<rparr>;
          s = s\<lparr>PRT0GS := PRT0GS s AND 0xE0\<rparr>
      in if STATE s \<noteq> 0 then unloadConfig (STATE s) s else unloadAllConfigs s)"

definition configToggle_load :: "int \<Rightarrow> module \<Rightarrow> module option" where
  "configToggle_load mode s =
     (if mode = WAIT then do {
        let s = LoadConfig waiting s;
        let s = RX_Start WAIT_RECV s;
        let s = RX_Start RX8_2 s;
        Some (s\<lparr>STATE := WAIT\<rparr>)
      }
      else if mode = MY_RESPONSE then do {
        let s = LoadConfig my_response s;
        let s = s\<lparr>TIMEOUT := 0\<rparr>;
        let s = TX_Start TX_014 s;
        let s = TX_Start TX_23 s;
        let s = TIMEOUT_EnableInt TX_01234_TIMEOUT s;
        let s = TIMEOUT_Start TX_01234_TIMEOUT s;
        s \<leftarrow> configToggle_settle s;
        let s = TIMEOUT_Stop TX_01234_TIMEOUT s;
        let s = s\<lparr>TIMEOUT := 0\<rparr>;
        Some (s\<lparr>STATE := MY_RESPONSE\<rparr>)
      }
      else if mode = RESPONSE_1 then do {
        let s = LoadConfig response1 s;
        let s = s\<lparr>TIMEOUT := 0\<rparr>;
        let s = RX_Start CHILD_1 s;
        let s = TIMEOUT_EnableInt CHILD_1_TIMEOUT s;
        let s = TIMEOUT_Start CHILD_1_TIMEOUT s;
        Some (s\<lparr>STATE := RESPONSE_1\<rparr>)
      }
      else if mode = RESPONSE_2 then do {
        let s = LoadConfig response2 s;
        let s = s\<lparr>TIMEOUT := 0\<rparr>;
        let s = RX_Start CHILD_2 s;
        let s = TIMEOUT_EnableInt CHILD_2_TIMEOUT s;
        let s = TIMEOUT_Start CHILD_2_TIMEOUT s;
        Some (s\<lparr>STATE := RESPONSE_2\<rparr>)
      }
      else if mode = RESPONSE_3 then do {
        let s = LoadConfig response3 s;
        let s = s\<lparr>TIMEOUT := 0\<rparr>;
        let s = RX_Start CHILD_3 s;
        let s = TIMEOUT_EnableInt CHILD_3_TIMEOUT s;
        let s = TIMEOUT_Start CHILD_3_TIMEOUT s;
        Some (s\<lparr>STATE := RESPONSE_3\<rparr>)
      }
      else if mode = RESPONSE_4 then do {
        let s = LoadConfig response4 s;
        let s = s\<lparr>TIMEOUT := 0\<rparr>;
        let s = RX_Start CHILD_4 s;
        let s = TIMEOUT_EnableInt CHILD_4_TIMEOUT s;
        let s = TIMEOUT_Start CHILD_4_TIMEOUT s;
        Some (s\<lparr>STATE := RESPONSE_4\<rparr>)
      }
      else if mode = HELLO_MODE then do {
        let s = LoadConfig hello s;
        let s = s\<lparr>TIMEOUT := 0\<rparr>;
        let s = RX_Start HELLO_1 s;
        let s = RX_Start HELLO_2 s;
        let s = RX_Start HELLO_3 s;
        let s = RX_Start HELLO_4 s;
        let s = TIMEOUT_EnableInt HELLO_TIMEOUT s;
        let s = TIMEOUT_Start HELLO_TIMEOUT s;
        Some (s\<lparr>STATE := HELLO_MODE\<rparr>)
      }
      else if mode = INITIALIZE then do {
        let s = LoadConfig initial s;
        let s = s\<lparr>TIMEOUT := 0\<rparr>;
        let s = RX_Start INIT_RX s;
        let s = TIMEOUT_EnableInt INIT_TIMEOUT s;
        let s = TIMEOUT_Start INIT_TIMEOUT s;
        Some (s\<lparr>STATE := INITIALIZE\<rparr>)
      }
      else Some s)"

definition configToggle_attach :: "module \<Rightarrow> module" where
  "configToggle_attach s =
     (if CONFIGURED s \<noteq> 0 then
        (let s = s\<lparr>PRT0GS := PRT0GS s OR 0x1F\<rparr>;
             s = s\<lparr>PRT2DR := PRT2DR s AND 0xFE\<rparr>;
             s = s\<lparr>PRT1DR := PRT1DR s OR 0xFF\<rparr>
         in if SERVO_ID s = 1 then s\<lparr>PRT1DR := PRT1DR s AND 0xF7\<rparr>
            else if SERVO_ID s = 2 then s\<lparr>PRT1DR := PRT1DR s AND 0xDF\<rparr>
            else if SERVO_ID s = 3 then s\<lparr>PRT1DR := PRT1DR s AND 0xD7\<rparr>
            else if SERVO_ID s = 4 then s\<lparr>PRT1DR := PRT1DR s AND 0x7F\<rparr>
            else if SERVO_ID s = 5 then s\<lparr>PRT1DR := PRT1DR s AND 0x77\<rparr>
            else if SERVO_ID s = 6 then s\<lparr>PRT1DR := PRT1DR s AND 0x5F\<rparr>
            else s)
      else
        (let s = s\<lparr>PRT0GS := PRT0GS s OR 0x01\<rparr>
         in s\<lparr>PRT2DR := PRT2DR s OR 0x01\<rparr>))"

definition configToggle :: "int \<Rightarrow> module \<Rightarrow> module option" where
  "configToggle mode s = do {
     let s = configToggle_unload s;
     s \<leftarrow> configToggle_load mode s;
     Some (configToggle_attach s)
   }"

subsection \<open>commandReady (lines 404-504)\<close>

definition commandReady :: "module \<Rightarrow> (int \<times> module) option" where
  "commandReady s =
     (if STATE s = WAIT then
        (let (c, s) = cReadChar WAIT_RECV s
         in if c = START_TRANSMIT then do {
              (c, s) \<leftarrow> cGetChar WAIT_RECV s;
              if c = START_TRANSMIT then do {
                (c, s) \<leftarrow> cGetChar WAIT_RECV s;
                let s = s\<lparr>COMMAND_SOURCE := c\<rparr>;
                (c, s) \<leftarrow> cGetChar WAIT_RECV s;
                let s = s\<lparr>COMMAND_DESTINATION := c\<rparr>;
                (c, s) \<leftarrow> cGetChar WAIT_RECV s;
                let s = s\<lparr>COMMAND_TYPE := c\<rparr>;
                (c, s) \<leftarrow> cGetChar WAIT_RECV s;
                let s = s\<lparr>COMMAND_PARAM := c\<rparr>;
                Some (1, s)
              }
              else Some (0, s)
            }
            else Some (0, s))
      else if STATE s = HELLO_MODE then
        (let (c, s) = cReadChar HELLO_1 s
         in if c = START_TRANSMIT then Some (1, s\<lparr>CHILD := PORT_A\<rparr>)
            else
              (let (c, s) = cReadChar HELLO_2 s
               in if c = START_TRANSMIT then Some (1, s\<lparr>CHILD := PORT_B\<rparr>)
                  else
                    (let (c, s) = cReadChar HELLO_3 s
                     in if c = START_TRANSMIT then Some (1, s\<lparr>CHILD := PORT_C\<rparr>)
                        else
                          (let (c, s) = cReadChar HELLO_4 s
                           in if c = START_TRANSMIT then Some (1, s\<lparr>CHILD := PORT_D\<rparr>)
                              else Some (0, s)))))
      else if STATE s = RESPONSE_1 then
        (let (c, s) = cReadChar CHILD_1 s
         in if c = END_TRANSMIT then Some (1, s) else Some (0, s))
      else if STATE s = RESPONSE_2 then
        (let (c, s) = cReadChar CHILD_2 s
         in if c = END_TRANSMIT then Some (1, s) else Some (0, s))
      else if STATE s = RESPONSE_3 then
        (let (c, s) = cReadChar CHILD_3 s
         in if c = END_TRANSMIT then Some (1, s) else Some (0, s))
      else if STATE s = RESPONSE_4 then
        (let (c, s) = cReadChar CHILD_4 s
         in if c = END_TRANSMIT then Some (1, s) else Some (0, s))
      else if STATE s = INITIALIZE then
        (let (c, s) = cReadChar INIT_RX s
         in if c = SERVO_START then do {
              (c, s) \<leftarrow> cGetChar INIT_RX s;
              if c = SERVO_START then do {
                (c, s) \<leftarrow> cGetChar INIT_RX s;
                let s = s\<lparr>COMMAND_SOURCE := c\<rparr>;
                (c, s) \<leftarrow> cGetChar INIT_RX s;
                let s = s\<lparr>COMMAND_LENGTH := c\<rparr>;
                (c, s) \<leftarrow> cGetChar INIT_RX s;
                let s = s\<lparr>COMMAND_ERROR := c\<rparr>;
                (c, s) \<leftarrow> cGetChar INIT_RX s;
                let s = s\<lparr>COMMAND_PARAM := c\<rparr>;
                Some (1, s)
              }
              else Some (0, s)
            }
            else Some (0, s))
      else Some (0, s))"

subsection \<open>The response emitters (lines 161-179, 646-699, 754-779)\<close>

definition sayHello :: "module \<Rightarrow> module option" where
  "sayHello s = do {
     s \<leftarrow> configToggle MY_RESPONSE s;
     let s = TX_PutChar TX_014 START_TRANSMIT s;
     let s = TX_PutChar TX_014 START_TRANSMIT s;
     let s = TX_PutChar TX_014 (ID s) s;
     let s = TX_PutChar TX_014 MASTER_ID s;
     let s = TX_PutChar TX_014 HELLO_BYTE s;
     let s = TX_PutChar TX_014 (CHILD s) s;
     let s = TX_PutChar TX_014 END_TRANSMIT s;
     let s = TX_PutChar TX_014 END_TRANSMIT s;
     let s = TX_wait_complete TX_014 s;
     configToggle WAIT s
   }"

definition configCleared :: "module \<Rightarrow> module option" where
  "configCleared s = do {
     s \<leftarrow> configToggle MY_RESPONSE s;
     let s = TX_PutChar TX_014 START_TRANSMIT s;
     let s = TX_PutChar TX_23 START_TRANSMIT s;
     let s = TX_PutChar TX_014 START_TRANSMIT s;
     let s = TX_PutChar TX_23 START_TRANSMIT s;
     let s = TX_PutChar TX_014 (ID s) s;
     let s = TX_PutChar TX_23 (ID s) s;
     let s = TX_PutChar TX_014 MASTER_ID s;
     let s = TX_PutChar TX_23 MASTER_ID s;
     let s = TX_PutChar TX_014 CONFIG_CLEARED s;
     let s = TX_PutChar TX_23 CONFIG_CLEARED s;
     let s = TX_PutChar TX_014 END_TRANSMIT s;
     let s = TX_PutChar TX_23 END_TRANSMIT s;
     let s = TX_PutChar TX_014 END_TRANSMIT s;
     let s = TX_PutChar TX_23 END_TRANSMIT s;
     let s = TX_wait_complete TX_014 s;
     let s = TX_wait_complete TX_23 s;
     configToggle WAIT s
   }"

definition pingResponse :: "module \<Rightarrow> module option" where
  "pingResponse s = do {
     s \<leftarrow> configToggle MY_RESPONSE s;
     let s = TX_PutChar TX_014 START_TRANSMIT s;
     let s = TX_PutChar TX_23 START_TRANSMIT s;
     let s = TX_PutChar TX_014 START_TRANSMIT s;
     let s = TX_PutChar TX_23 START_TRANSMIT s;
     let s = TX_PutChar TX_014 (ID s) s;
     let s = TX_PutChar TX_23 (ID s) s;
     let s = TX_PutChar TX_014 MASTER_ID s;
     let s = TX_PutChar TX_23 MASTER_ID s;
     let s = TX_PutChar TX_014 PING s;
     let s = TX_PutChar TX_23 PING s;
     let s = TX_PutChar TX_014 END_TRANSMIT s;
     let s = TX_PutChar TX_23 END_TRANSMIT s;
     let s = TX_PutChar TX_014 END_TRANSMIT s;
     let s = TX_PutChar TX_23 END_TRANSMIT s;
     let s = TX_wait_complete TX_014 s;
     let s = TX_wait_complete TX_23 s;
     configToggle WAIT s
   }"

definition assignedID :: "module \<Rightarrow> module option" where
  "assignedID s = do {
     s \<leftarrow> configToggle MY_RESPONSE s;
     let s = TX_PutChar TX_014 START_TRANSMIT s;
     let s = TX_PutChar TX_23 START_TRANSMIT s;
     let s = TX_PutChar TX_014 START_TRANSMIT s;
     let s = TX_PutChar TX_23 START_TRANSMIT s;
     let s = TX_PutChar TX_014 (ID s) s;
     let s = TX_PutChar TX_23 (ID s) s;
     let s = TX_PutChar TX_014 MASTER_ID s;
     let s = TX_PutChar TX_23 MASTER_ID s;
     let s = TX_PutChar TX_014 ID_ASSIGN_OK s;
     let s = TX_PutChar TX_23 ID_ASSIGN_OK s;
     let s = TX_PutChar TX_014 END_TRANSMIT s;
     let s = TX_PutChar TX_23 END_TRANSMIT s;
     let s = TX_PutChar TX_014 END_TRANSMIT s;
     let s = TX_PutChar TX_23 END_TRANSMIT s;
     let s = TX_wait_complete TX_014 s;
     let s = TX_wait_complete TX_23 s;
     configToggle WAIT s
   }"

subsection \<open>servoInstruction (lines 1015-1057)\<close>

text \<open>
  The arguments are promoted to \<open>int\<close> for the sum; \<open>total\<close> is an \<open>int\<close> and the
  assignment to the \<open>char\<close> checksum keeps its low byte.
\<close>

definition servoInstruction ::
  "byte \<Rightarrow> byte \<Rightarrow> byte \<Rightarrow> byte \<Rightarrow> byte \<Rightarrow> module \<Rightarrow> module option" where
  "servoInstruction id' length' instruction address value' s = do {
     s \<leftarrow> configToggle MY_RESPONSE s;
     let s = s\<lparr>PRT0GS := PRT0GS s AND 0xE1\<rparr>;
     let total = 255 - ((uint id' + uint length' + uint instruction + uint address
                         + uint value') mod 256);
     let checksum = (word_of_int total :: byte);
     let s =
       (if instruction = PING_SERVO then
          (let s = TX_PutChar TX_014 SERVO_START s;
               s = TX_PutChar TX_014 SERVO_START s;
               s = TX_PutChar TX_014 id' s;
               s = TX_PutChar TX_014 length' s;
               s = TX_PutChar TX_014 instruction s
           in TX_PutChar TX_014 checksum s)
        else
          (let s = TX_PutChar TX_014 SERVO_START s;
               s = TX_PutChar TX_014 SERVO_START s;
               s = TX_PutChar TX_014 id' s;
               s = TX_PutChar TX_014 length' s;
               s = TX_PutChar TX_014 instruction s;
               s = TX_PutChar TX_014 address s;
               s = TX_PutChar TX_014 value' s
           in TX_PutChar TX_014 checksum s));
     let s = TX_wait_complete TX_014 s;
     configToggle INITIALIZE s
   }"

subsection \<open>childListen and childResponse (lines 782-858)\<close>

text \<open>
  The loop of childListen (lines 787-793).  The first component of the result tells
  how the loop was left: 1 by the \<open>return 1\<close> inside it, 0 by its guard.
\<close>

partial_function (option) childListen_loop :: "module \<Rightarrow> (int \<times> module) option" where
  "childListen_loop s =
     (let s = read_TIMEOUT s
      in if TIMEOUT s \<noteq> 0 then Some (0, s)
         else do {
           (r, s) \<leftarrow> commandReady s;
           if r \<noteq> 0 then Some (1, s) else childListen_loop s
         })"

definition childListen :: "module \<Rightarrow> (int \<times> module) option" where
  "childListen s = do {
     s \<leftarrow> configToggle HELLO_MODE s;
     (returned, s) \<leftarrow> childListen_loop s;
     if returned \<noteq> 0 then Some (1, s)
     else do {
       let s = TIMEOUT_Stop HELLO_TIMEOUT s;
       let s = s\<lparr>TIMEOUT := 0\<rparr>;
       s \<leftarrow> configToggle WAIT s;
       Some (0, s)
     }
   }"

text \<open>
  The loop of childResponse (lines 827-833); \<open>&&\<close> reads \<open>TIMEOUT\<close> only when
  \<open>child_responded\<close> is still 0.
\<close>

partial_function (option) childResponse_loop :: "int \<Rightarrow> module \<Rightarrow> (int \<times> module) option" where
  "childResponse_loop child_responded s =
     (if child_responded \<noteq> 0 then Some (child_responded, s)
      else
        (let s = read_TIMEOUT s
         in if TIMEOUT s \<noteq> 0 then Some (child_responded, s)
            else do {
              (r, s) \<leftarrow> commandReady s;
              if r \<noteq> 0 then childResponse_loop 1 s
              else childResponse_loop child_responded s
            }))"

definition childResponse :: "module \<Rightarrow> (int \<times> module) option" where
  "childResponse s = do {
     let child_responded = 0;
     s \<leftarrow>
       (if CHILD s = PORT_A then configToggle RESPONSE_1 s
        else if CHILD s = PORT_B then configToggle RESPONSE_2 s
        else if CHILD s = PORT_C then configToggle RESPONSE_3 s
        else if CHILD s = PORT_D then configToggle RESPONSE_4 s
        else Some s);
     (child_responded, s) \<leftarrow> childResponse_loop child_responded s;
     let s =
       (if CHILD s = PORT_A then TIMEOUT_Stop CHILD_1_TIMEOUT s
        else if CHILD s = PORT_B then TIMEOUT_Stop CHILD_2_TIMEOUT s
        else if CHILD s = PORT_C then TIMEOUT_Stop CHILD_3_TIMEOUT s
        else if CHILD s = PORT_D then TIMEOUT_Stop CHILD_4_TIMEOUT s
        else s);
     let s = s\<lparr>TIMEOUT := 0\<rparr>;
     s \<leftarrow> configToggle WAIT s;
     Some (child_responded, s)
   }"

subsection \<open>takeAction (lines 508-643)\<close>

text \<open>
  The three nested loops of the ID assignment branch, innermost first: the poll for a
  servo reply (lines 581-602, with the attempt counter \<open>i\<close> it may overwrite), the
  \<open>for\<close> over the attempts (lines 575-603) and the \<open>while(ID != SERVO_ID)\<close>
  (lines 569-604).
\<close>

partial_function (option) takeAction_listen :: "nat \<Rightarrow> module \<Rightarrow> (nat \<times> module) option" where
  "takeAction_listen i s =
     (let s = read_TIMEOUT s
      in if TIMEOUT s \<noteq> 0 then Some (i, s)
         else do {
           (r, s) \<leftarrow> commandReady s;
           if r \<noteq> 0 then
             (if COMMAND_ERROR s = 0 then
                (if COMMAND_SOURCE s = ID s then do {
                   let s = s\<lparr>TIMEOUT := 1\<rparr>;
                   let i = SERVO_COMM_ATTEMPTS;
                   let s = s\<lparr>SERVO_ID := ID s\<rparr>;
                   s \<leftarrow> configToggle WAIT s;
                   takeAction_listen i s
                 }
                 else takeAction_listen i s)
              else takeAction_listen i s)
           else takeAction_listen i s
         })"

partial_function (option) takeAction_attempts :: "nat \<Rightarrow> module \<Rightarrow> module option" where
  "takeAction_attempts i s =
     (if i < SERVO_COMM_ATTEMPTS then do {
        s \<leftarrow> servoInstruction BROADCAST PING_LENGTH PING_SERVO 0 0 s;
        (i, s) \<leftarrow> takeAction_listen i s;
        takeAction_attempts (i + 1) s
      }
      else Some s)"

partial_function (option) takeAction_reID :: "module \<Rightarrow> module option" where
  "takeAction_reID s =
     (if ID s \<noteq> SERVO_ID s then do {
        s \<leftarrow> servoInstruction (SERVO_ID s) WRITE_LENGTH WRITE_SERVO ID_ADDRESS (ID s) s;
        s \<leftarrow> takeAction_attempts 0 s;
        takeAction_reID s
      }
      else Some s)"

definition takeAction :: "module \<Rightarrow> module option" where
  "takeAction s =
     (if COMMAND_TYPE s = HELLO_BYTE then
        (if CONFIGURED s = 0 then sayHello s
         else if CHILD s = 0 then do {
           (heard, s) \<leftarrow> childListen s;
           if heard \<noteq> 0 then sayHello s else Some s
         }
         else if CHILD s \<noteq> 0 then do {
           (r, s) \<leftarrow> childResponse s;
           Some s
         }
         else Some s)
      else if COMMAND_TYPE s = PING then
        (if COMMAND_DESTINATION s = ID s then pingResponse s
         else if COMMAND_DESTINATION s > ID s then do {
           (r, s) \<leftarrow> childResponse s;
           Some s
         }
         else Some s)
      else if COMMAND_TYPE s = ID_ASSIGNMENT then
        (if COMMAND_DESTINATION s = ID s then
           (if COMMAND_PARAM s > MASTER_ID \<and> COMMAND_PARAM s < DEFAULT_ID then do {
              let s = s\<lparr>ID := COMMAND_PARAM s\<rparr>;
              let s = s\<lparr>CONFIGURED := 1\<rparr>;
              s \<leftarrow> assignedID s;
              if ID s \<noteq> SERVO_ID s then takeAction_reID s else Some s
            }
            else Some s)
         else if COMMAND_DESTINATION s > ID s then do {
           (r, s) \<leftarrow> childResponse s;
           Some s
         }
         else Some s)
      else if COMMAND_TYPE s = CLEAR_CONFIG then do {
        s \<leftarrow> (if COMMAND_DESTINATION s = ID s then configCleared s else Some s);
        let s =
          (if COMMAND_DESTINATION s \<le> ID s \<or> COMMAND_DESTINATION s = BROADCAST then
             (let s = s\<lparr>ID := DEFAULT_ID\<rparr>;
                  s = s\<lparr>CONFIGURED := 0\<rparr>
              in s\<lparr>CHILD := 0\<rparr>)
           else s);
        Some (s\<lparr>PRT2DR := PRT2DR s OR 0x01\<rparr>)
      }
      else Some s)"

subsection \<open>servoFinder (lines 863-1011)\<close>

text \<open>The loops that look for the servo's ID (lines 875-919), innermost first.\<close>

partial_function (option) servoFinder_listen :: "nat \<Rightarrow> module \<Rightarrow> (nat \<times> module) option" where
  "servoFinder_listen i s =
     (let s = read_TIMEOUT s
      in if TIMEOUT s \<noteq> 0 then Some (i, s)
         else do {
           (r, s) \<leftarrow> commandReady s;
           if r \<noteq> 0 then
             (if COMMAND_ERROR s = 0 then
                (if COMMAND_SOURCE s \<ge> SERVO_ID_MIN \<and> COMMAND_SOURCE s \<le> SERVO_ID_MAX then do {
                   let s = s\<lparr>TIMEOUT := 1\<rparr>;
                   let s = s\<lparr>SERVO_ID := COMMAND_SOURCE s\<rparr>;
                   let i = SERVO_COMM_ATTEMPTS;
                   servoFinder_listen i s
                 }
                 else servoFinder_listen i (s\<lparr>TIMEOUT := 1\<rparr>))
              else servoFinder_listen i s)
           else servoFinder_listen i s
         })"

partial_function (option) servoFinder_pings :: "nat \<Rightarrow> module \<Rightarrow> module option" where
  "servoFinder_pings i s =
     (if i < SERVO_COMM_ATTEMPTS then do {
        s \<leftarrow> servoInstruction BROADCAST PING_LENGTH PING_SERVO 0 0 s;
        (i, s) \<leftarrow> servoFinder_listen i s;
        servoFinder_pings (i + 1) s
      }
      else Some s)"

partial_function (option) servoFinder_find :: "int \<Rightarrow> module \<Rightarrow> module option" where
  "servoFinder_find flashWrite s =
     (if SERVO_ID s = SERVO_START then do {
        s \<leftarrow> servoFinder_pings 0 s;
        let flashWrite = (if SERVO_ID s = SERVO_START \<and> flashWrite = 0 then 1 else flashWrite);
        servoFinder_find flashWrite s
      }
      else Some s)"

text \<open>The loops that read the status return level (lines 952-994), innermost first.\<close>

partial_function (option) servoFinder_level_listen ::
  "nat \<Rightarrow> byte \<Rightarrow> module \<Rightarrow> (nat \<times> byte \<times> module) option" where
  "servoFinder_level_listen i status_return_level s =
     (let s = read_TIMEOUT s
      in if TIMEOUT s \<noteq> 0 then Some (i, status_return_level, s)
         else do {
           (r, s) \<leftarrow> commandReady s;
           if r \<noteq> 0 then
             (if COMMAND_ERROR s = 0 then
                (if COMMAND_PARAM s = STATUS_RET_LEVEL then do {
                   let s = s\<lparr>TIMEOUT := 1\<rparr>;
                   let status_return_level = COMMAND_PARAM s;
                   let i = SERVO_COMM_ATTEMPTS;
                   servoFinder_level_listen i status_return_level s
                 }
                 else servoFinder_level_listen i status_return_level (s\<lparr>TIMEOUT := 1\<rparr>))
              else servoFinder_level_listen i status_return_level s)
           else servoFinder_level_listen i status_return_level s
         })"

partial_function (option) servoFinder_reads ::
  "nat \<Rightarrow> byte \<Rightarrow> module \<Rightarrow> (byte \<times> module) option" where
  "servoFinder_reads i status_return_level s =
     (if i < SERVO_COMM_ATTEMPTS then do {
        s \<leftarrow> servoInstruction (SERVO_ID s) READ_LENGTH READ_SERVO STATUS_RET_ADDRESS 1 s;
        (i, status_return_level, s) \<leftarrow> servoFinder_level_listen i status_return_level s;
        servoFinder_reads (i + 1) status_return_level s
      }
      else Some (status_return_level, s))"

partial_function (option) servoFinder_level :: "byte \<Rightarrow> module \<Rightarrow> module option" where
  "servoFinder_level status_return_level s =
     (if status_return_level \<noteq> STATUS_RET_LEVEL then do {
        (status_return_level, s) \<leftarrow> servoFinder_reads 0 status_return_level s;
        servoFinder_level status_return_level s
      }
      else Some s)"

definition servoFinder :: "module \<Rightarrow> module option" where
  "servoFinder s = do {
     let flashWrite = 0;
     let status_return_level = 3;
     s \<leftarrow> servoFinder_find flashWrite s;
     s \<leftarrow> servoFinder_level status_return_level s;
     configToggle WAIT s
   }"

subsection \<open>main (lines 130-159)\<close>

text \<open>
  \<open>main\<close> never returns.  \<open>main_init\<close> is its straight-line start, \<open>main_loop n\<close> the
  first \<open>n\<close> rounds of its \<open>while(1)\<close>, and \<open>main n\<close> the state after power-up and
  \<open>n\<close> rounds, for the hardware \<open>s\<close> starts in.
\<close>

definition main_init :: "module \<Rightarrow> module" where
  "main_init s =
     (let s = s\<lparr>CHILD := 0\<rparr>;
          s = s\<lparr>CONFIGURED := 0\<rparr>;
          s = s\<lparr>TIMEOUT := 0\<rparr>;
          s = s\<lparr>COMMAND_PARAM := 0\<rparr>;
          s = s\<lparr>STATE := 0\<rparr>;
          s = s\<lparr>SERVO_ID := 255\<rparr>;
          s = s\<lparr>ID := DEFAULT_ID\<rparr>;
          s = emit EnableGInt s
      in emit EnableIntMask s)"

definition main_round :: "module \<Rightarrow> module option" where
  "main_round s = do {
     (ready, s) \<leftarrow> commandReady s;
     if ready \<noteq> 0 then takeAction s else Some s
   }"

fun main_loop :: "nat \<Rightarrow> module \<Rightarrow> module option" where
  "main_loop 0 s = Some s"
| "main_loop (Suc n) s = do { s \<leftarrow> main_round s; main_loop n s }"

definition main :: "nat \<Rightarrow> module \<Rightarrow> module option" where
  "main n s = do {
     let s = main_init s;
     s \<leftarrow> servoFinder s;
     main_loop n s
   }"

section \<open>What a run shows\<close>

text \<open>
  \<open>sent t\<close> reads off a trace the bytes written to transmitter \<open>t\<close>; \<open>wire\<close> keeps
  of a trace what a response is made of: the configurations loaded, the bytes written and
  the waits for a transmitter to finish.  \<open>loads mode\<close> is what configToggle adds to it,
  \<open>on_both\<close> a frame written byte by byte to both transmitter groups.  \<open>kept s s'\<close>
  says that \<open>s'\<close> has the identity, the command and the pending input of \<open>s\<close>.
\<close>

fun sent :: "transmitter \<Rightarrow> event list \<Rightarrow> byte list" where
  "sent t [] = []"
| "sent t (Put u b # es) = (if u = t then b # sent t es else sent t es)"
| "sent t (e # es) = sent t es"

fun on_wire :: "event \<Rightarrow> bool" where
  "on_wire (Load c) = True"
| "on_wire (Put t b) = True"
| "on_wire (TxComplete t) = True"
| "on_wire e = False"

definition wire :: "event list \<Rightarrow> event list" where
  "wire es = filter on_wire es"

definition loads :: "int \<Rightarrow> event list" where
  "loads mode =
     (if mode = WAIT then [Load waiting]
      else if mode = MY_RESPONSE then [Load my_response]
      else if mode = RESPONSE_1 then [Load response1]
      else if mode = RESPONSE_2 then [Load response2]
      else if mode = RESPONSE_3 then [Load response3]
      else if mode = RESPONSE_4 then [Load response4]
      else if mode = HELLO_MODE then [Load hello]
      else if mode = INITIALIZE then [Load initial]
      else [])"

definition on_both :: "byte list \<Rightarrow> event list" where
  "on_both bs = concat (map (\<lambda>b. [Put TX_014 b, Put TX_23 b]) bs)"

definition kept :: "module \<Rightarrow> module \<Rightarrow> bool" where
  "kept s s' \<longleftrightarrow>
     CHILD s' = CHILD s \<and> ID s' = ID s \<and> CONFIGURED s' = CONFIGURED s \<and>
     COMMAND_SOURCE s' = COMMAND_SOURCE s \<and> COMMAND_DESTINATION s' = COMMAND_DESTINATION s \<and>
     COMMAND_TYPE s' = COMMAND_TYPE s \<and> COMMAND_PARAM s' = COMMAND_PARAM s \<and>
     COMMAND_LENGTH s' = COMMAND_LENGTH s \<and> COMMAND_ERROR s' = COMMAND_ERROR s \<and>
     SERVO_ID s' = SERVO_ID s \<and> rx s' = rx s \<and> rx_peek s' = rx_peek s \<and>
     period s' = period s"

text \<open>
  The servo packet for a command tuple, with the checksum as a byte: 255 minus the sum
  of the five bytes, in byte arithmetic.
\<close>

definition servo_frame :: "byte \<Rightarrow> byte \<Rightarrow> byte \<Rightarrow> byte \<Rightarrow> byte \<Rightarrow> byte list" where
  "servo_frame i l n a v =
     (if n = PING_SERVO then [255, 255, i, l, n, 255 - (i + l + n + a + v)]
      else [255, 255, i, l, n, a, v, 255 - (i + l + n + a + v)])"

text \<open>What commandReady leaves alone: it reads, and time passes while it does.\<close>

definition core :: "module \<Rightarrow> byte \<times> int \<times> byte \<times> int \<times> bool \<times> (timer \<Rightarrow> nat) \<times> event list" where
  "core s = (ID s, CONFIGURED s, SERVO_ID s, STATE s, rx_peek s, period s, trace s)"

text \<open>\<open>front q s s'\<close>: receiver \<open>q\<close> has in \<open>s'\<close> what it had in \<open>s\<close>, less some bytes read.\<close>

definition front :: "receiver \<Rightarrow> module \<Rightarrow> module \<Rightarrow> bool" where
  "front q s s' \<longleftrightarrow> (\<exists>bs. rx s q = bs @ rx s' q)"

text \<open>
  \<open>running t s\<close>: timer \<open>t\<close> has been started and not stopped.  \<open>child_timer c\<close> is
  the timer childResponse starts and stops for the child on port \<open>c\<close> (lines 809-853).
\<close>

definition running :: "timer \<Rightarrow> module \<Rightarrow> bool" where
  "running t s \<longleftrightarrow> t \<in> fst ` set (timers s)"


text \<open>
  \<open>due n s\<close>: the flag is set, or a timer is running that interrupts within \<open>n\<close> units
  of time.
\<close>

definition due :: "nat \<Rightarrow> module \<Rightarrow> bool" where
  "due n s \<longleftrightarrow> TIMEOUT s = 1 \<or> list_ex (\<lambda>(t, m). m \<le> n) (timers s)"

text \<open>
  \<open>heard i s s'\<close>: between \<open>s\<close> and \<open>s'\<close> the module has read from the servo line, and
  the last six bytes it read are a status packet of servo \<open>i\<close> that reports no error:
  two start bytes, the ID, a length, the error byte 0 and one byte more.
\<close>

definition heard :: "byte \<Rightarrow> module \<Rightarrow> module \<Rightarrow> bool" where
  "heard i s s' \<longleftrightarrow> (\<exists>before l p. rx s INIT_RX = before @ [255, 255, i, l, 0, p] @ rx s' INIT_RX)"

text \<open>
  The wire trace of one servoInstruction: a broadcast ping, and the write of a new ID to
  the servo that answers to \<open>sid\<close>.  A round of the re-ID procedure is one write
  followed by \<open>k\<close> pings.
\<close>

definition servo_round :: "byte list \<Rightarrow> event list" where
  "servo_round packet = [Load my_response] @ map (Put TX_014) packet @ [TxComplete TX_014, Load initial]"

definition ping_round :: "event list" where
  "ping_round = servo_round (servo_frame BROADCAST PING_LENGTH PING_SERVO 0 0)"

definition write_round :: "byte \<Rightarrow> byte \<Rightarrow> event list" where
  "write_round sid new_id = servo_round (servo_frame sid WRITE_LENGTH WRITE_SERVO ID_ADDRESS new_id)"

definition reID_round :: "byte \<Rightarrow> byte \<Rightarrow> nat \<Rightarrow> event list" where
  "reID_round sid new_id k = write_round sid new_id @ concat (replicate k ping_round)"

text \<open>The wire trace of assignedID for a new ID.\<close>

definition assign_ack :: "byte \<Rightarrow> event list" where
  "assign_ack new_id = [Load my_response] @ on_both [248, 248, new_id, MASTER_ID, ID_ASSIGN_OK, 85, 85]
     @ [TxComplete TX_014, TxComplete TX_23, Load waiting]"


text \<open>The invariant: a configured module has an assigned ID.\<close>

definition id_ok :: "module \<Rightarrow> bool" where
  "id_ok s \<longleftrightarrow> (CONFIGURED s \<noteq> 0 \<longrightarrow> 1 \<le> ID s \<and> ID s \<le> 250)"

section \<open>Concrete inputs\<close>

text \<open>
  The states the properties below are tried on.  \<open>power_on\<close> is a module before
  \<open>main\<close> has run, with nothing to receive, a \<open>cReadChar\<close> that takes the byte it
  returns, and timers that interrupt two units of time after their start; the others
  are states in which a frame has just been read.
\<close>

definition power_on :: module where
  "power_on =
     \<lparr>CHILD = 0, ID = 0, CONFIGURED = 0, TIMEOUT = 0, STATE = 0,
      COMMAND_SOURCE = 0, COMMAND_DESTINATION = 0, COMMAND_TYPE = 0, COMMAND_PARAM = 0,
      COMMAND_LENGTH = 0, COMMAND_ERROR = 0, SERVO_ID = 0,
      PRT0DR = 0, PRT0GS = 0, PRT1DR = 0, PRT2DR = 0,
      rx = (\<lambda>r. []), rx_peek = False, timers = [], period = (\<lambda>t. 1), trace = []\<rparr>"

text \<open>A module waiting for the master, unconfigured, its servo found at ID 1.\<close>

definition fresh :: module where
  "fresh = power_on\<lparr>ID := DEFAULT_ID, SERVO_ID := 1, STATE := WAIT\<rparr>"

text \<open>A configured module with ID 5, servo 5 and a child on port A.\<close>

definition module_5 :: module where
  "module_5 = power_on\<lparr>ID := 5, CONFIGURED := 1, CHILD := PORT_A, SERVO_ID := 5, STATE := WAIT\<rparr>"

text \<open>An ID assignment to the fresh module whose parameter is the default ID itself.\<close>

definition assign_251 :: module where
  "assign_251 = fresh\<lparr>COMMAND_SOURCE := MASTER_ID, COMMAND_DESTINATION := DEFAULT_ID,
     COMMAND_TYPE := ID_ASSIGNMENT, COMMAND_PARAM := 251\<rparr>"

text \<open>A broadcast CLEAR_CONFIG read by module 5.\<close>

definition clear_broadcast :: module where
  "clear_broadcast = module_5\<lparr>COMMAND_SOURCE := MASTER_ID, COMMAND_DESTINATION := BROADCAST,
     COMMAND_TYPE := CLEAR_CONFIG, COMMAND_PARAM := 0\<rparr>"

text \<open>A HELLO from the master read by the fresh module.\<close>

definition hello_fresh :: module where
  "hello_fresh = fresh\<lparr>COMMAND_SOURCE := MASTER_ID, COMMAND_DESTINATION := BROADCAST,
     COMMAND_TYPE := HELLO_BYTE, COMMAND_PARAM := 0\<rparr>"








text \<open>
  Module 5 without a child and with no timer running has read a PING for module 7;
  nothing more arrives on any receiver.  \<open>ping_7_child\<close> is the same with a child on
  port A.
\<close>

definition ping_7 :: module where
  "ping_7 = power_on\<lparr>ID := 5, CONFIGURED := 1, CHILD := 0, SERVO_ID := 5, STATE := WAIT,
     COMMAND_SOURCE := MASTER_ID, COMMAND_DESTINATION := 7, COMMAND_TYPE := PING,
     COMMAND_PARAM := 0\<rparr>"

definition ping_7_child :: module where
  "ping_7_child = ping_7\<lparr>CHILD := PORT_A\<rparr>"



text \<open>What a call of childListen shows: its result, the flag and the timers running.\<close>

definition returned :: "int \<times> module \<Rightarrow> int \<times> int \<times> (timer \<times> nat) list" where
  "returned p = (fst p, TIMEOUT (snd p), timers (snd p))"

text \<open>
  A module at power-up whose servo will answer the first ping with the status packet of
  servo 5 (\<open>FF FF 05 02 00 F8\<close>) and the first read with the status return level 1
  (\<open>FF FF 05 03 00 01 F6\<close>), and whose master will then send the frame that assigns
  ID 5 to the module with the default ID (\<open>F8 F8 00 FB C9 05 55 55\<close>).
\<close>

definition boot :: module where
  "boot = power_on\<lparr>rx := (\<lambda>r. [])
     (INIT_RX := [0xFF, 0xFF, 5, 2, 0, 0xF8, 0xFF, 0xFF, 5, 3, 0, 1, 0xF6],
      WAIT_RECV := [0xF8, 0xF8, 0, 251, 201, 5, 0x55, 0x55])\<rparr>"

text \<open>
  The same power-up, where the master then sends a PING for module 7
  (\<open>F8 F8 00 07 CB 00 55 55\<close>).
\<close>

definition boot_ping :: module where
  "boot_ping = power_on\<lparr>rx := (\<lambda>r. [])
     (INIT_RX := [0xFF, 0xFF, 5, 2, 0, 0xF8, 0xFF, 0xFF, 5, 3, 0, 1, 0xF6],
      WAIT_RECV := [0xF8, 0xF8, 0, 251, 201, 5, 0x55, 0x55, 0xF8, 0xF8, 0, 7, 203, 0, 0x55, 0x55])\<rparr>"

section \<open>The driver calls and configToggle\<close>

lemma sent_append [simp]: "sent t (xs @ ys) = sent t xs @ sent t ys"
  by (induction t xs rule: sent.induct) auto

lemma wire_append [simp]: "wire (xs @ ys) = wire xs @ wire ys"
  by (simp add: wire_def)

lemma wire_simps [simp]:
  "wire [] = []"
  "wire (e # es) = (if on_wire e then e # wire es else wire es)"
  by (simp_all add: wire_def)

lemma sent_wire: "sent t (wire es) = sent t es"
  by (induction t es rule: sent.induct) auto

lemma sent_from_wire: "wire es' = wire es @ xs \<Longrightarrow> sent t es' = sent t es @ sent t xs"
  by (metis sent_append sent_wire)

lemmas driver_defs = emit_def TX_PutChar_def TX_wait_complete_def RX_Start_def TX_Start_def
  TIMEOUT_EnableInt_def TIMEOUT_Start_def TIMEOUT_Stop_def LoadConfig_def UnloadConfig_def

lemma kept_refl [simp]: "kept s s" by (simp add: kept_def)
lemma kept_trans: "kept a b \<Longrightarrow> kept b c \<Longrightarrow> kept a c" by (simp add: kept_def)

lemma settle_kept:
  "configToggle_settle s = Some s' \<Longrightarrow> kept s s' \<and> trace s' = trace s \<and> STATE s' = STATE s \<and> TIMEOUT s' \<noteq> 0"
proof (induction rule: configToggle_settle.raw_induct[rotated 1, consumes 1])
  case (1 settle s s')
  then show ?case
    by (auto simp: Let_def read_TIMEOUT_def time_passes_def TIMEOUT_ISR_def kept_def split: if_splits dest!: "1.IH")
qed

lemma settle_returns:
  "(t, n) \<in> set (timers s) \<Longrightarrow> \<exists>s'. configToggle_settle s = Some s'"
proof (induction n arbitrary: s)
  case 0
  then have "expired (timers s)" by (auto simp: expired_def list_ex_iff)
  then show ?case
    by (subst configToggle_settle.simps) (simp add: Let_def read_TIMEOUT_def time_passes_def TIMEOUT_ISR_def)
next
  case (Suc n)
  show ?case
  proof (cases "TIMEOUT (read_TIMEOUT s) \<noteq> 0")
    case True
    then show ?thesis by (subst configToggle_settle.simps) (simp add: Let_def)
  next
    case False
    then have ne: "\<not> expired (timers s)"
      by (auto simp: read_TIMEOUT_def time_passes_def TIMEOUT_ISR_def Let_def split: if_splits)
    have "(t, n) \<in> set (timers (read_TIMEOUT s))"
      using Suc.prems ne
      by (force simp: read_TIMEOUT_def time_passes_def Let_def count_down_def expired_def list_ex_iff image_iff)
    from Suc.IH[OF this] obtain s' where "configToggle_settle (read_TIMEOUT s) = Some s'" by blast
    with False show ?thesis by (subst configToggle_settle.simps) (simp add: Let_def)
  qed
qed

lemma unload_effect:
  "kept s (configToggle_unload s) \<and> TIMEOUT (configToggle_unload s) = TIMEOUT s
   \<and> STATE (configToggle_unload s) = STATE s
   \<and> wire (trace (configToggle_unload s)) = wire (trace s)"
  by (simp add: configToggle_unload_def unloadConfig_def unloadAllConfigs_def kept_def driver_defs
      Let_def split: option.splits)

lemma attach_effect:
  "kept s (configToggle_attach s) \<and> TIMEOUT (configToggle_attach s) = TIMEOUT s
   \<and> STATE (configToggle_attach s) = STATE s \<and> timers (configToggle_attach s) = timers s
   \<and> trace (configToggle_attach s) = trace s"
  by (simp add: configToggle_attach_def kept_def Let_def)

lemma load_returns: "\<exists>s'. configToggle_load mode s = Some s'"
proof (cases "mode = MY_RESPONSE")
  case True
  define s2 where "s2 = TIMEOUT_Start TX_01234_TIMEOUT (TIMEOUT_EnableInt TX_01234_TIMEOUT
      (TX_Start TX_23 (TX_Start TX_014 ((LoadConfig my_response s)\<lparr>TIMEOUT := 0\<rparr>))))"
  have "(TX_01234_TIMEOUT, period s2 TX_01234_TIMEOUT) \<in> set (timers s2)"
    by (simp add: s2_def driver_defs)
  from settle_returns[OF this] obtain s3 where "configToggle_settle s2 = Some s3" by blast
  then show ?thesis using True
    by (simp add: configToggle_load_def Let_def s2_def)
next
  case False
  then show ?thesis by (simp add: configToggle_load_def Let_def)
qed

lemma load_effect:
  assumes "configToggle_load mode s = Some s'"
  shows "kept s s' \<and> wire (trace s') = wire (trace s) @ loads mode
    \<and> STATE s' = (if 1 \<le> mode \<and> mode \<le> 8 then mode else STATE s)
    \<and> TIMEOUT s' = (if 2 \<le> mode \<and> mode \<le> 8 then 0 else TIMEOUT s)"
proof (cases "mode = MY_RESPONSE")
  case True
  define s2 where "s2 = TIMEOUT_Start TX_01234_TIMEOUT (TIMEOUT_EnableInt TX_01234_TIMEOUT
      (TX_Start TX_23 (TX_Start TX_014 ((LoadConfig my_response s)\<lparr>TIMEOUT := 0\<rparr>))))"
  from assms True obtain s3 where s3: "configToggle_settle s2 = Some s3"
    and s': "s' = (TIMEOUT_Stop TX_01234_TIMEOUT s3)\<lparr>TIMEOUT := 0, STATE := MY_RESPONSE\<rparr>"
    by (auto simp: configToggle_load_def Let_def s2_def split: Option.bind_splits)
  have k2: "kept s s2 \<and> wire (trace s2) = wire (trace s) @ [Load my_response]"
    by (simp add: s2_def driver_defs kept_def)
  from settle_kept[OF s3] have k3: "kept s2 s3 \<and> trace s3 = trace s2" by simp
  have k4: "kept s3 s' \<and> wire (trace s') = wire (trace s3) \<and> STATE s' = 2 \<and> TIMEOUT s' = 0"
    by (simp add: s' driver_defs kept_def)
  from k2 k3 k4 True show ?thesis by (simp add: kept_def loads_def)
next
  case False
  from assms False show ?thesis
    by (auto simp: configToggle_load_def Let_def driver_defs kept_def loads_def split: if_splits)
qed

lemma configToggle_returns: "\<exists>s'. configToggle mode s = Some s'"
  using load_returns[of mode "configToggle_unload s"]
  by (auto simp: configToggle_def Let_def)

lemma configToggle_effect:
  assumes "configToggle mode s = Some s'"
  shows "kept s s' \<and> wire (trace s') = wire (trace s) @ loads mode
    \<and> STATE s' = (if 1 \<le> mode \<and> mode \<le> 8 then mode else STATE s)
    \<and> TIMEOUT s' = (if 2 \<le> mode \<and> mode \<le> 8 then 0 else TIMEOUT s)"
proof -
  from assms obtain s2 where l: "configToggle_load mode (configToggle_unload s) = Some s2"
    and s': "s' = configToggle_attach s2"
    by (auto simp: configToggle_def Let_def split: Option.bind_splits)
  show ?thesis
    using unload_effect[of s] load_effect[OF l] attach_effect[of s2]
    by (simp add: s' kept_def)
qed

lemma sent_on_both [simp]: "sent t (on_both bs) = bs"
  by (induction bs) (auto simp: on_both_def, (cases t; simp)+)

lemma sayHello_returns: "\<exists>s'. sayHello s = Some s'"
proof -
  obtain s1 where a: "configToggle MY_RESPONSE s = Some s1"
    using configToggle_returns by blast
  show ?thesis
    using a by (simp add: sayHello_def Let_def configToggle_returns)
qed

lemma sayHello_effect:
  assumes "sayHello s = Some s'"
  shows "kept s s' \<and> STATE s' = WAIT \<and> TIMEOUT s' = 0
    \<and> wire (trace s') = wire (trace s) @ [Load my_response]
        @ map (Put TX_014) [248, 248, ID s, 0, 200, CHILD s, 85, 85]
        @ [TxComplete TX_014, Load waiting]"
proof -
  from assms obtain s1 where a: "configToggle MY_RESPONSE s = Some s1"
    by (auto simp: sayHello_def split: Option.bind_splits)
  from assms a obtain s2 where b: "configToggle WAIT s2 = Some s'"
    and k: "kept s1 s2 \<and> TIMEOUT s2 = TIMEOUT s1 \<and> wire (trace s2) = wire (trace s1)
        @ map (Put TX_014) [248, 248, ID s1, 0, 200, CHILD s1, 85, 85] @ [TxComplete TX_014]"
    by (simp add: sayHello_def Let_def driver_defs kept_def)
  from configToggle_effect[OF a] configToggle_effect[OF b] k show ?thesis
    by (simp add: kept_def loads_def)
qed

lemma pingResponse_returns: "\<exists>s'. pingResponse s = Some s'"
proof -
  obtain s1 where a: "configToggle MY_RESPONSE s = Some s1"
    using configToggle_returns by blast
  show ?thesis
    using a by (simp add: pingResponse_def Let_def configToggle_returns)
qed

lemma pingResponse_effect:
  assumes "pingResponse s = Some s'"
  shows "kept s s' \<and> STATE s' = WAIT \<and> TIMEOUT s' = 0
    \<and> wire (trace s') = wire (trace s) @ [Load my_response]
        @ on_both [248, 248, ID s, 0, 203, 85, 85]
        @ [TxComplete TX_014, TxComplete TX_23, Load waiting]"
proof -
  from assms obtain s1 where a: "configToggle MY_RESPONSE s = Some s1"
    by (auto simp: pingResponse_def split: Option.bind_splits)
  from assms a obtain s2 where b: "configToggle WAIT s2 = Some s'"
    and k: "kept s1 s2 \<and> TIMEOUT s2 = TIMEOUT s1 \<and> wire (trace s2) = wire (trace s1)
        @ on_both [248, 248, ID s1, 0, 203, 85, 85] @ [TxComplete TX_014, TxComplete TX_23]"
    by (simp add: pingResponse_def Let_def driver_defs kept_def on_both_def)
  from configToggle_effect[OF a] configToggle_effect[OF b] k show ?thesis
    by (simp add: kept_def loads_def)
qed

lemma assignedID_returns: "\<exists>s'. assignedID s = Some s'"
proof -
  obtain s1 where a: "configToggle MY_RESPONSE s = Some s1"
    using configToggle_returns by blast
  show ?thesis
    using a by (simp add: assignedID_def Let_def configToggle_returns)
qed

lemma assignedID_effect:
  assumes "assignedID s = Some s'"
  shows "kept s s' \<and> STATE s' = WAIT \<and> TIMEOUT s' = 0
    \<and> wire (trace s') = wire (trace s) @ [Load my_response]
        @ on_both [248, 248, ID s, 0, 202, 85, 85]
        @ [TxComplete TX_014, TxComplete TX_23, Load waiting]"
proof -
  from assms obtain s1 where a: "configToggle MY_RESPONSE s = Some s1"
    by (auto simp: assignedID_def split: Option.bind_splits)
  from assms a obtain s2 where b: "configToggle WAIT s2 = Some s'"
    and k: "kept s1 s2 \<and> TIMEOUT s2 = TIMEOUT s1 \<and> wire (trace s2) = wire (trace s1)
        @ on_both [248, 248, ID s1, 0, 202, 85, 85] @ [TxComplete TX_014, TxComplete TX_23]"
    by (simp add: assignedID_def Let_def driver_defs kept_def on_both_def)
  from configToggle_effect[OF a] configToggle_effect[OF b] k show ?thesis
    by (simp add: kept_def loads_def)
qed

lemma configCleared_returns: "\<exists>s'. configCleared s = Some s'"
proof -
  obtain s1 where a: "configToggle MY_RESPONSE s = Some s1"
    using configToggle_returns by blast
  show ?thesis
    using a by (simp add: configCleared_def Let_def configToggle_returns)
qed

lemma configCleared_effect:
  assumes "configCleared s = Some s'"
  shows "kept s s' \<and> STATE s' = WAIT \<and> TIMEOUT s' = 0
    \<and> wire (trace s') = wire (trace s) @ [Load my_response]
        @ on_both [248, 248, ID s, 0, 205, 85, 85]
        @ [TxComplete TX_014, TxComplete TX_23, Load waiting]"
proof -
  from assms obtain s1 where a: "configToggle MY_RESPONSE s = Some s1"
    by (auto simp: configCleared_def split: Option.bind_splits)
  from assms a obtain s2 where b: "configToggle WAIT s2 = Some s'"
    and k: "kept s1 s2 \<and> TIMEOUT s2 = TIMEOUT s1 \<and> wire (trace s2) = wire (trace s1)
        @ on_both [248, 248, ID s1, 0, 205, 85, 85] @ [TxComplete TX_014, TxComplete TX_23]"
    by (simp add: configCleared_def Let_def driver_defs kept_def on_both_def)
  from configToggle_effect[OF a] configToggle_effect[OF b] k show ?thesis
    by (simp add: kept_def loads_def)
qed

section \<open>The servo packet and its checksum\<close>

lemma checksum_byte:
  "(word_of_int (255 - (uint i + uint l + uint n + uint a + uint v) mod 256) :: byte)
     = 255 - (i + l + n + a + v)"
  by (simp add: word_uint_eq_iff uint_word_ariths uint_word_of_int mod_simps take_bit_eq_mod)

lemma byte_le_255: "(w::byte) \<le> 255"
proof -
  have "(255::byte) = - 1" by simp
  then show ?thesis by (simp only: word_n1_ge)
qed

lemma unat_255_minus: "unat (255 - (w::byte)) = 255 - unat w"
  using unat_sub[OF byte_le_255, of w] by simp

lemma mod_256_complement: "(S + (255 - S mod 256)) mod 256 = (255::nat)"
proof -
  define q r where "q = S div 256" and "r = S mod 256"
  have r: "r < 256" by (simp add: r_def)
  have S: "S = 256 * q + r" by (simp add: q_def r_def)
  have "S + (255 - r) = 255 + q * 256" using r S by linarith
  then show ?thesis unfolding r_def[symmetric] by (simp only: mod_mult_self1) simp
qed

lemma checksum_law:
  "(unat i + unat l + unat n + unat a + unat v + unat (255 - (i + l + n + a + v) :: byte)) mod 256 = 255"
proof -
  let ?w = "i + l + n + a + v"
  have w: "unat ?w = (unat i + unat l + unat n + unat a + unat v) mod 256"
    by (simp add: unat_word_ariths mod_simps)
  show ?thesis
    unfolding unat_255_minus w by (rule mod_256_complement)
qed
lemma servoInstruction_returns: "\<exists>s'. servoInstruction i l n a v s = Some s'"
proof -
  obtain s1 where a: "configToggle MY_RESPONSE s = Some s1"
    using configToggle_returns by blast
  show ?thesis
    unfolding servoInstruction_def Let_def using a
    by (simp add: configToggle_returns)
qed

lemma sent_map_Put [simp]: "sent t (map (Put u) bs) = (if u = t then bs else [])"
  by (induction bs) auto

lemma servoInstruction_effect:
  assumes "servoInstruction i l n a v s = Some s'"
  shows "kept s s' \<and> STATE s' = INITIALIZE \<and> TIMEOUT s' = 0
    \<and> wire (trace s') = wire (trace s) @ [Load my_response]
        @ map (Put TX_014) (servo_frame i l n a v) @ [TxComplete TX_014, Load initial]"
proof -
  define c :: byte where "c = 255 - (i + l + n + a + v)"
  from assms obtain s1 where a: "configToggle MY_RESPONSE s = Some s1"
    by (auto simp: servoInstruction_def split: Option.bind_splits)
  define s2 where "s2 = TX_wait_complete TX_014
     (if n = PING_SERVO then
        TX_PutChar TX_014 c (TX_PutChar TX_014 n (TX_PutChar TX_014 l (TX_PutChar TX_014 i
          (TX_PutChar TX_014 SERVO_START (TX_PutChar TX_014 SERVO_START
             (s1\<lparr>PRT0GS := PRT0GS s1 AND 0xE1\<rparr>))))))
      else
        TX_PutChar TX_014 c (TX_PutChar TX_014 v (TX_PutChar TX_014 a
          (TX_PutChar TX_014 n (TX_PutChar TX_014 l (TX_PutChar TX_014 i
          (TX_PutChar TX_014 SERVO_START (TX_PutChar TX_014 SERVO_START
             (s1\<lparr>PRT0GS := PRT0GS s1 AND 0xE1\<rparr>)))))))))"
  from assms a have b: "configToggle INITIALIZE s2 = Some s'"
    unfolding servoInstruction_def checksum_byte Let_def s2_def c_def by simp
  have k: "kept s1 s2 \<and> wire (trace s2) = wire (trace s1)
        @ map (Put TX_014) (servo_frame i l n a v) @ [TxComplete TX_014]"
    unfolding s2_def servo_frame_def c_def[symmetric]
    by (simp add: driver_defs kept_def)
  from configToggle_effect[OF a] configToggle_effect[OF b] k show ?thesis
    by (simp add: kept_def loads_def)
qed


section \<open>The branches of takeAction\<close>

lemma takeAction_HELLO_BYTE:
  "COMMAND_TYPE s = HELLO_BYTE \<Longrightarrow> takeAction s =
        (if CONFIGURED s = 0 then sayHello s
         else if CHILD s = 0 then do {
           (heard, s) \<leftarrow> childListen s;
           if heard \<noteq> 0 then sayHello s else Some s
         }
         else if CHILD s \<noteq> 0 then do {
           (r, s) \<leftarrow> childResponse s;
           Some s
         }
         else Some s)"
  unfolding takeAction_def by simp

lemma takeAction_PING:
  "COMMAND_TYPE s = PING \<Longrightarrow> takeAction s =
        (if COMMAND_DESTINATION s = ID s then pingResponse s
         else if COMMAND_DESTINATION s > ID s then do {
           (r, s) \<leftarrow> childResponse s;
           Some s
         }
         else Some s)"
  unfolding takeAction_def by simp

lemma takeAction_ID_ASSIGNMENT:
  "COMMAND_TYPE s = ID_ASSIGNMENT \<Longrightarrow> takeAction s =
        (if COMMAND_DESTINATION s = ID s then
           (if COMMAND_PARAM s > MASTER_ID \<and> COMMAND_PARAM s < DEFAULT_ID then do {
              let s = s\<lparr>ID := COMMAND_PARAM s\<rparr>;
              let s = s\<lparr>CONFIGURED := 1\<rparr>;
              s \<leftarrow> assignedID s;
              if ID s \<noteq> SERVO_ID s then takeAction_reID s else Some s
            }
            else Some s)
         else if COMMAND_DESTINATION s > ID s then do {
           (r, s) \<leftarrow> childResponse s;
           Some s
         }
         else Some s)"
  unfolding takeAction_def by simp

lemma takeAction_CLEAR_CONFIG:
  "COMMAND_TYPE s = CLEAR_CONFIG \<Longrightarrow> takeAction s = do {
        s \<leftarrow> (if COMMAND_DESTINATION s = ID s then configCleared s else Some s);
        let s =
          (if COMMAND_DESTINATION s \<le> ID s \<or> COMMAND_DESTINATION s = BROADCAST then
             (let s = s\<lparr>ID := DEFAULT_ID\<rparr>;
                  s = s\<lparr>CONFIGURED := 0\<rparr>
              in s\<lparr>CHILD := 0\<rparr>)
           else s);
        Some (s\<lparr>PRT2DR := PRT2DR s OR 0x01\<rparr>)
      }"
  unfolding takeAction_def by simp

lemma takeAction_other:
  "COMMAND_TYPE s \<noteq> HELLO_BYTE \<Longrightarrow> COMMAND_TYPE s \<noteq> PING \<Longrightarrow>
   COMMAND_TYPE s \<noteq> ID_ASSIGNMENT \<Longrightarrow> COMMAND_TYPE s \<noteq> CLEAR_CONFIG \<Longrightarrow> takeAction s = Some s"
  unfolding takeAction_def by simp

section \<open>Time and the receivers\<close>

lemma time_passes_fields [simp]:
  "CHILD (time_passes s) = CHILD s" "ID (time_passes s) = ID s"
  "CONFIGURED (time_passes s) = CONFIGURED s" "STATE (time_passes s) = STATE s"
  "COMMAND_SOURCE (time_passes s) = COMMAND_SOURCE s"
  "COMMAND_DESTINATION (time_passes s) = COMMAND_DESTINATION s"
  "COMMAND_TYPE (time_passes s) = COMMAND_TYPE s"
  "COMMAND_PARAM (time_passes s) = COMMAND_PARAM s"
  "COMMAND_LENGTH (time_passes s) = COMMAND_LENGTH s"
  "COMMAND_ERROR (time_passes s) = COMMAND_ERROR s"
  "SERVO_ID (time_passes s) = SERVO_ID s" "rx (time_passes s) = rx s"
  "rx_peek (time_passes s) = rx_peek s"
  "period (time_passes s) = period s" "trace (time_passes s) = trace s"
  by (simp_all add: time_passes_def TIMEOUT_ISR_def Let_def)

lemma time_passes_idle: "timers s = [] \<Longrightarrow> time_passes s = s"
  by (simp add: time_passes_def expired_def count_down_def Let_def)

lemma read_TIMEOUT_fields [simp]:
  "CHILD (read_TIMEOUT s) = CHILD s" "ID (read_TIMEOUT s) = ID s"
  "CONFIGURED (read_TIMEOUT s) = CONFIGURED s" "STATE (read_TIMEOUT s) = STATE s"
  "COMMAND_SOURCE (read_TIMEOUT s) = COMMAND_SOURCE s"
  "COMMAND_DESTINATION (read_TIMEOUT s) = COMMAND_DESTINATION s"
  "COMMAND_TYPE (read_TIMEOUT s) = COMMAND_TYPE s"
  "COMMAND_PARAM (read_TIMEOUT s) = COMMAND_PARAM s"
  "COMMAND_LENGTH (read_TIMEOUT s) = COMMAND_LENGTH s"
  "COMMAND_ERROR (read_TIMEOUT s) = COMMAND_ERROR s"
  "SERVO_ID (read_TIMEOUT s) = SERVO_ID s" "rx (read_TIMEOUT s) = rx s"
  "rx_peek (read_TIMEOUT s) = rx_peek s"
  "period (read_TIMEOUT s) = period s" "trace (read_TIMEOUT s) = trace s"
  by (simp_all add: read_TIMEOUT_def)

lemma read_TIMEOUT_set: "TIMEOUT s = 1 \<Longrightarrow> TIMEOUT (read_TIMEOUT s) = 1"
  by (simp add: read_TIMEOUT_def time_passes_def TIMEOUT_ISR_def Let_def)

lemma read_TIMEOUT_clear: "TIMEOUT (read_TIMEOUT s) = 0 \<Longrightarrow> TIMEOUT s = 0"
  by (simp add: read_TIMEOUT_def time_passes_def TIMEOUT_ISR_def Let_def split: if_splits)

text \<open>
  What a call of a receiver leaves alone, and what it takes: \<open>cGetChar\<close> the first byte,
  \<open>cReadChar\<close> the first byte unless it peeks.
\<close>

lemma core_upd [simp]:
  "core (s\<lparr>COMMAND_SOURCE := a\<rparr>) = core s"
  "core (s\<lparr>COMMAND_DESTINATION := a\<rparr>) = core s"
  "core (s\<lparr>COMMAND_TYPE := a\<rparr>) = core s"
  "core (s\<lparr>COMMAND_PARAM := a\<rparr>) = core s"
  "core (s\<lparr>COMMAND_LENGTH := a\<rparr>) = core s"
  "core (s\<lparr>COMMAND_ERROR := a\<rparr>) = core s"
  "core (s\<lparr>CHILD := a\<rparr>) = core s"
  "core (s\<lparr>rx := f\<rparr>) = core s"
  "core (time_passes s) = core s"
  by (simp_all add: core_def)

lemma coreD:
  "core s' = core s \<Longrightarrow> ID s' = ID s \<and> CONFIGURED s' = CONFIGURED s \<and> SERVO_ID s' = SERVO_ID s
     \<and> STATE s' = STATE s \<and> rx_peek s' = rx_peek s \<and> period s' = period s \<and> trace s' = trace s"
  by (simp add: core_def)

lemma cGetChar_core: "cGetChar r s = Some (c, s') \<Longrightarrow> core s' = core s \<and> CHILD s' = CHILD s"
  by (auto simp: cGetChar_def split: list.splits)

lemma cGetChar_takes:
  "cGetChar r s = Some (c, s') \<Longrightarrow> rx s r = c # rx s' r \<and> (\<forall>q. q \<noteq> r \<longrightarrow> rx s' q = rx s q)"
  by (auto simp: cGetChar_def split: list.splits)

lemma cReadChar_core: "cReadChar r s = (c, s') \<Longrightarrow> core s' = core s \<and> CHILD s' = CHILD s"
  by (auto simp: cReadChar_def Let_def split: list.splits if_splits)

lemma cReadChar_takes:
  "cReadChar r s = (c, s') \<Longrightarrow>
     (\<forall>q. q \<noteq> r \<longrightarrow> rx s' q = rx s q)
     \<and> (rx s' r = rx s r \<or> \<not> rx_peek s \<and> rx s r = c # rx s' r)"
  by (auto simp: cReadChar_def Let_def split: list.splits if_splits)

lemma cReadChar_empty: "rx s r = [] \<Longrightarrow> cReadChar r s = (0, time_passes s)"
  by (simp add: cReadChar_def Let_def)

lemma cReadChar_byte:
  "rx s r = b # bs \<Longrightarrow> \<not> rx_peek s \<Longrightarrow> cReadChar r s = (b, (time_passes s)\<lparr>rx := (rx s)(r := bs)\<rparr>)"
  by (simp add: cReadChar_def Let_def)

lemma cReadChar_peek:
  "rx s r = b # bs \<Longrightarrow> rx_peek s \<Longrightarrow> cReadChar r s = (b, time_passes s)"
  by (simp add: cReadChar_def Let_def)

lemma cGetChar_byte:
  "rx s r = b # bs \<Longrightarrow> cGetChar r s = Some (b, (time_passes s)\<lparr>rx := (rx s)(r := bs)\<rparr>)"
  by (simp add: cGetChar_def)



lemma front_refl [simp]: "front q s s" by (simp add: front_def)
lemma front_upd [simp]:
  "front q s (s'\<lparr>COMMAND_SOURCE := a\<rparr>) = front q s s'"
  "front q s (s'\<lparr>COMMAND_DESTINATION := a\<rparr>) = front q s s'"
  "front q s (s'\<lparr>COMMAND_TYPE := a\<rparr>) = front q s s'"
  "front q s (s'\<lparr>COMMAND_PARAM := a\<rparr>) = front q s s'"
  "front q s (s'\<lparr>COMMAND_LENGTH := a\<rparr>) = front q s s'"
  "front q s (s'\<lparr>COMMAND_ERROR := a\<rparr>) = front q s s'"
  "front q s (s'\<lparr>CHILD := a\<rparr>) = front q s s'"
  "front q (s\<lparr>COMMAND_SOURCE := a\<rparr>) s' = front q s s'"
  "front q (s\<lparr>COMMAND_DESTINATION := a\<rparr>) s' = front q s s'"
  "front q (s\<lparr>COMMAND_TYPE := a\<rparr>) s' = front q s s'"
  "front q (s\<lparr>COMMAND_PARAM := a\<rparr>) s' = front q s s'"
  "front q (s\<lparr>COMMAND_LENGTH := a\<rparr>) s' = front q s s'"
  "front q (s\<lparr>COMMAND_ERROR := a\<rparr>) s' = front q s s'"
  "front q (s\<lparr>CHILD := a\<rparr>) s' = front q s s'"
  by (simp_all add: front_def)


section \<open>commandReady\<close>

lemma commandReady_core:
  assumes "commandReady s = Some (r, s')"
  shows "core s' = core s"
proof -
  consider (w) "STATE s = WAIT" | (i) "STATE s = INITIALIZE" | (h) "STATE s = HELLO_MODE"
    | (o) "STATE s \<noteq> WAIT \<and> STATE s \<noteq> INITIALIZE \<and> STATE s \<noteq> HELLO_MODE"
    by blast
  then show ?thesis
  proof cases
    case w
    with assms show ?thesis
      by (auto simp: commandReady_def Let_def split: if_splits Option.bind_splits prod.splits
          dest!: cGetChar_core cReadChar_core)
  next
    case i
    with assms show ?thesis
      by (auto simp: commandReady_def Let_def split: if_splits Option.bind_splits prod.splits
          dest!: cGetChar_core cReadChar_core)
  next
    case h
    with assms show ?thesis
      by (auto simp: commandReady_def Let_def split: if_splits prod.splits dest!: cReadChar_core)
  next
    case o
    with assms show ?thesis
      by (auto simp: commandReady_def Let_def split: if_splits prod.splits dest!: cReadChar_core)
  qed
qed







text \<open>
  With a \<open>cReadChar\<close> that peeks, a response role never gets past the first byte of a
  child's frame: the END byte behind it is not seen.
\<close>

lemma commandReady_peek_no_end:
  assumes "rx_peek s" and "STATE s = RESPONSE_1" and "rx s CHILD_1 = b # bs" and "b \<noteq> END_TRANSMIT"
  shows "\<exists>s'. commandReady s = Some (0, s') \<and> rx s' = rx s \<and> rx_peek s' \<and> STATE s' = RESPONSE_1"
  using assms by (simp add: commandReady_def cReadChar_def Let_def)

section \<open>The loops of the ID assignment\<close>

lemma listen_effect:
  "takeAction_listen i s = Some r \<Longrightarrow>
     ID (snd r) = ID s \<and> CONFIGURED (snd r) = CONFIGURED s \<and> period (snd r) = period s
     \<and> TIMEOUT (snd r) \<noteq> 0
     \<and> (TIMEOUT s = 1 \<longrightarrow> r = (i, read_TIMEOUT s))
     \<and> ((fst r = i \<and> SERVO_ID (snd r) = SERVO_ID s \<and> trace (snd r) = trace s
           \<and> STATE (snd r) = STATE s)
        \<or> (fst r = 10 \<and> SERVO_ID (snd r) = ID s
           \<and> wire (trace (snd r)) = wire (trace s) @ [Load waiting] \<and> STATE (snd r) = WAIT
           \<and> TIMEOUT (snd r) = 1 \<and> COMMAND_SOURCE (snd r) = ID s \<and> COMMAND_ERROR (snd r) = 0))"
proof (induction i s r rule: takeAction_listen.raw_induct[rotated 1, consumes 1])
  case (1 listen i s r)
  define s1 where "s1 = read_TIMEOUT s"
  show ?case
  proof (cases "TIMEOUT s1 \<noteq> 0")
    case True
    with 1(2) have "r = (i, s1)" by (simp add: Let_def s1_def)
    with True show ?thesis by (simp add: s1_def)
  next
    case False
    then have t0: "TIMEOUT s = 0" using read_TIMEOUT_clear[of s] by (simp add: s1_def)
    from False 1(2) obtain rr s2 where cr: "commandReady s1 = Some (rr, s2)"
      by (auto simp: Let_def s1_def split: Option.bind_splits)
    note c2 = coreD[OF commandReady_core[OF cr]]
    show ?thesis
    proof (cases "rr \<noteq> 0 \<and> COMMAND_ERROR s2 = 0 \<and> COMMAND_SOURCE s2 = ID s2")
      case True
      define s3 where "s3 = s2\<lparr>TIMEOUT := 1, SERVO_ID := ID s2\<rparr>"
      from False True cr 1(2) obtain s4 where ct: "configToggle WAIT s3 = Some s4"
        and rec: "listen 10 s4 = Some r"
        by (auto simp: Let_def s1_def[symmetric] s3_def split: Option.bind_splits)
      note e = configToggle_effect[OF ct]
      from e have t4: "TIMEOUT s4 = 1" by (simp add: s3_def)
      from "1.IH"[OF rec] t4 have r: "r = (10, read_TIMEOUT s4)" by simp
      from e have "kept s3 s4" by simp
      then show ?thesis using r e c2 True t0 t4
        by (simp add: kept_def s3_def s1_def loads_def read_TIMEOUT_set)
    next
      case other: False
      with False cr 1(2) have rec: "listen i s2 = Some r"
        by (auto simp: Let_def s1_def[symmetric] split: if_splits)
      from "1.IH"[OF rec] c2 t0 False show ?thesis
        by (auto simp: s1_def)
    qed
  qed
qed

lemma servoInstruction_wire:
  assumes "servoInstruction i l n a v s = Some s'"
  shows "kept s s' \<and> wire (trace s') = wire (trace s) @ servo_round (servo_frame i l n a v)"
  using servoInstruction_effect[OF assms] by (simp add: servo_round_def)

lemma attempts_effect:
  "takeAction_attempts i s = Some s' \<Longrightarrow>
     ID s' = ID s \<and> CONFIGURED s' = CONFIGURED s \<and> period s' = period s
     \<and> (10 \<le> i \<longrightarrow> s' = s)
     \<and> (i < 10 \<longrightarrow>
          (SERVO_ID s' = SERVO_ID s \<and> TIMEOUT s' \<noteq> 0
             \<and> wire (trace s') = wire (trace s) @ concat (replicate (10 - i) ping_round))
          \<or> (\<exists>k. 1 \<le> k \<and> k \<le> 10 - i \<and> SERVO_ID s' = ID s
               \<and> wire (trace s') = wire (trace s) @ concat (replicate k ping_round) @ [Load waiting]
               \<and> STATE s' = WAIT \<and> TIMEOUT s' = 1 \<and> COMMAND_SOURCE s' = ID s
               \<and> COMMAND_ERROR s' = 0))"
proof (induction i s s' rule: takeAction_attempts.raw_induct[rotated 1, consumes 1])
  case (1 attempts i s s')
  show ?case
  proof (cases "i < 10")
    case False
    with 1(2) show ?thesis by simp
  next
    case True
    with 1(2) obtain s1 i2 s2 where si: "servoInstruction BROADCAST PING_LENGTH PING_SERVO 0 0 s = Some s1"
      and li: "takeAction_listen i s1 = Some (i2, s2)"
      and rec: "attempts (i2 + 1) s2 = Some s'"
      by (auto split: Option.bind_splits)
    from servoInstruction_wire[OF si]
    have k1: "kept s s1" and w1: "wire (trace s1) = wire (trace s) @ ping_round"
      by (simp_all add: ping_round_def)
    note l = listen_effect[OF li, simplified]
    note ih = "1.IH"[OF rec]
    from l have "(i2 = i \<and> SERVO_ID s2 = SERVO_ID s1 \<and> trace s2 = trace s1 \<and> STATE s2 = STATE s1)
        \<or> (i2 = 10 \<and> SERVO_ID s2 = ID s1 \<and> wire (trace s2) = wire (trace s1) @ [Load waiting]
            \<and> STATE s2 = WAIT \<and> TIMEOUT s2 = 1 \<and> COMMAND_SOURCE s2 = ID s1 \<and> COMMAND_ERROR s2 = 0)"
      by auto
    then show ?thesis
    proof
      assume f: "i2 = i \<and> SERVO_ID s2 = SERVO_ID s1 \<and> trace s2 = trace s1 \<and> STATE s2 = STATE s1"
      show ?thesis
      proof (cases "i + 1 < 10")
        case False
        with True have i9: "i = 9" by simp
        with ih f have "s' = s2" by simp
        with f l k1 w1 i9 show ?thesis by (simp add: kept_def)
      next
        case lt: True
        from ih lt f have
          "(SERVO_ID s' = SERVO_ID s2 \<and> TIMEOUT s' \<noteq> 0
             \<and> wire (trace s') = wire (trace s2) @ concat (replicate (10 - (i + 1)) ping_round))
          \<or> (\<exists>k. 1 \<le> k \<and> k \<le> 10 - (i + 1) \<and> SERVO_ID s' = ID s2
               \<and> wire (trace s') = wire (trace s2) @ concat (replicate k ping_round) @ [Load waiting]
               \<and> STATE s' = WAIT \<and> TIMEOUT s' = 1 \<and> COMMAND_SOURCE s' = ID s2
               \<and> COMMAND_ERROR s' = 0)"
          by simp
        then show ?thesis
        proof
          assume a: "SERVO_ID s' = SERVO_ID s2 \<and> TIMEOUT s' \<noteq> 0
             \<and> wire (trace s') = wire (trace s2) @ concat (replicate (10 - (i + 1)) ping_round)"
          have "replicate (10 - i) ping_round = ping_round # replicate (10 - (i + 1)) ping_round"
            using True by (cases "10 - i") simp_all
          with a f l k1 w1 ih True show ?thesis by (simp add: kept_def)
        next
          assume "\<exists>k. 1 \<le> k \<and> k \<le> 10 - (i + 1) \<and> SERVO_ID s' = ID s2
               \<and> wire (trace s') = wire (trace s2) @ concat (replicate k ping_round) @ [Load waiting]
               \<and> STATE s' = WAIT \<and> TIMEOUT s' = 1 \<and> COMMAND_SOURCE s' = ID s2
               \<and> COMMAND_ERROR s' = 0"
          then obtain k where k: "1 \<le> k" "k \<le> 10 - (i + 1)" "SERVO_ID s' = ID s2"
            "wire (trace s') = wire (trace s2) @ concat (replicate k ping_round) @ [Load waiting]"
            "STATE s' = WAIT" "TIMEOUT s' = 1" "COMMAND_SOURCE s' = ID s2" "COMMAND_ERROR s' = 0"
            by blast
          have "1 \<le> Suc k \<and> Suc k \<le> 10 - i \<and> SERVO_ID s' = ID s
               \<and> wire (trace s') = wire (trace s) @ concat (replicate (Suc k) ping_round) @ [Load waiting]
               \<and> STATE s' = WAIT \<and> TIMEOUT s' = 1 \<and> COMMAND_SOURCE s' = ID s
               \<and> COMMAND_ERROR s' = 0"
            using k f l k1 w1 lt by (simp add: kept_def)
          then have "\<exists>k. 1 \<le> k \<and> k \<le> 10 - i \<and> SERVO_ID s' = ID s
               \<and> wire (trace s') = wire (trace s) @ concat (replicate k ping_round) @ [Load waiting]
               \<and> STATE s' = WAIT \<and> TIMEOUT s' = 1 \<and> COMMAND_SOURCE s' = ID s
               \<and> COMMAND_ERROR s' = 0" by blast
          with ih l k1 True show ?thesis by (simp add: kept_def)
        qed
      qed
    next
      assume g: "i2 = 10 \<and> SERVO_ID s2 = ID s1 \<and> wire (trace s2) = wire (trace s1) @ [Load waiting]
            \<and> STATE s2 = WAIT \<and> TIMEOUT s2 = 1 \<and> COMMAND_SOURCE s2 = ID s1 \<and> COMMAND_ERROR s2 = 0"
      with ih have e: "s' = s2" by simp
      have "1 \<le> (1::nat) \<and> 1 \<le> 10 - i \<and> SERVO_ID s' = ID s
               \<and> wire (trace s') = wire (trace s) @ concat (replicate 1 ping_round) @ [Load waiting]
               \<and> STATE s' = WAIT \<and> TIMEOUT s' = 1 \<and> COMMAND_SOURCE s' = ID s
               \<and> COMMAND_ERROR s' = 0"
        using g e k1 w1 True by (simp add: kept_def)
      then have "\<exists>k. 1 \<le> k \<and> k \<le> 10 - i \<and> SERVO_ID s' = ID s
               \<and> wire (trace s') = wire (trace s) @ concat (replicate k ping_round) @ [Load waiting]
               \<and> STATE s' = WAIT \<and> TIMEOUT s' = 1 \<and> COMMAND_SOURCE s' = ID s
               \<and> COMMAND_ERROR s' = 0" by blast
      with e l k1 True show ?thesis by (simp add: kept_def)
    qed
  qed
qed

lemma reID_effect:
  "takeAction_reID s = Some s' \<Longrightarrow>
     (ID s = SERVO_ID s \<longrightarrow> s' = s)
     \<and> (ID s \<noteq> SERVO_ID s \<longrightarrow>
          ID s' = ID s \<and> CONFIGURED s' = CONFIGURED s \<and> SERVO_ID s' = ID s \<and> STATE s' = WAIT
          \<and> TIMEOUT s' = 1 \<and> COMMAND_SOURCE s' = ID s \<and> COMMAND_ERROR s' = 0
          \<and> (\<exists>ks. ks \<noteq> [] \<and> (\<forall>k\<in>set ks. 1 \<le> k \<and> k \<le> 10) \<and> (\<forall>k\<in>set (butlast ks). k = 10)
                \<and> wire (trace s') = wire (trace s)
                     @ concat (map (reID_round (SERVO_ID s) (ID s)) ks) @ [Load waiting]))"
proof (induction s s' rule: takeAction_reID.raw_induct[rotated 1, consumes 1])
  case (1 reID s s')
  show ?case
  proof (cases "ID s = SERVO_ID s")
    case True
    with 1(2) show ?thesis by simp
  next
    case False
    with 1(2) obtain s1 s2 where
      si: "servoInstruction (SERVO_ID s) WRITE_LENGTH WRITE_SERVO ID_ADDRESS (ID s) s = Some s1"
      and at: "takeAction_attempts 0 s1 = Some s2"
      and rec: "reID s2 = Some s'"
      by (auto split: Option.bind_splits)
    from servoInstruction_wire[OF si]
    have k1: "kept s s1"
      and w1: "wire (trace s1) = wire (trace s) @ write_round (SERVO_ID s) (ID s)"
      by (simp_all add: write_round_def)
    from k1 have id1: "ID s1 = ID s" "SERVO_ID s1 = SERVO_ID s" "CONFIGURED s1 = CONFIGURED s"
      by (simp_all add: kept_def)
    note a = attempts_effect[OF at, simplified]
    note ih = "1.IH"[OF rec]
    from a have "(SERVO_ID s2 = SERVO_ID s1 \<and> TIMEOUT s2 \<noteq> 0
             \<and> wire (trace s2) = wire (trace s1) @ concat (replicate 10 ping_round))
          \<or> (\<exists>k. 1 \<le> k \<and> k \<le> 10 \<and> SERVO_ID s2 = ID s1
               \<and> wire (trace s2) = wire (trace s1) @ concat (replicate k ping_round) @ [Load waiting]
               \<and> STATE s2 = WAIT \<and> TIMEOUT s2 = 1 \<and> COMMAND_SOURCE s2 = ID s1
               \<and> COMMAND_ERROR s2 = 0)"
      by auto
    then show ?thesis
    proof
      assume f: "SERVO_ID s2 = SERVO_ID s1 \<and> TIMEOUT s2 \<noteq> 0
             \<and> wire (trace s2) = wire (trace s1) @ concat (replicate 10 ping_round)"
      with a id1 False have ne: "ID s2 \<noteq> SERVO_ID s2" and id2: "ID s2 = ID s" "SERVO_ID s2 = SERVO_ID s"
        "CONFIGURED s2 = CONFIGURED s"
        by simp_all
      from ih ne obtain ks where ks: "ks \<noteq> []" "\<forall>k\<in>set ks. 1 \<le> k \<and> k \<le> 10"
        "\<forall>k\<in>set (butlast ks). k = 10"
        "wire (trace s') = wire (trace s2) @ concat (map (reID_round (SERVO_ID s2) (ID s2)) ks) @ [Load waiting]"
        and rest: "ID s' = ID s2" "CONFIGURED s' = CONFIGURED s2" "SERVO_ID s' = ID s2" "STATE s' = WAIT"
          "TIMEOUT s' = 1" "COMMAND_SOURCE s' = ID s2" "COMMAND_ERROR s' = 0"
        by auto
      have "10 # ks \<noteq> [] \<and> (\<forall>k\<in>set (10 # ks). 1 \<le> k \<and> k \<le> 10)
          \<and> (\<forall>k\<in>set (butlast (10 # ks)). k = 10)
          \<and> wire (trace s') = wire (trace s)
               @ concat (map (reID_round (SERVO_ID s) (ID s)) (10 # ks)) @ [Load waiting]"
        using ks f w1 id2 by (simp add: reID_round_def)
      then have "\<exists>ks. ks \<noteq> [] \<and> (\<forall>k\<in>set ks. 1 \<le> k \<and> k \<le> 10) \<and> (\<forall>k\<in>set (butlast ks). k = 10)
                \<and> wire (trace s') = wire (trace s)
                     @ concat (map (reID_round (SERVO_ID s) (ID s)) ks) @ [Load waiting]"
        by blast
      with rest id2 False show ?thesis by simp
    next
      assume "\<exists>k. 1 \<le> k \<and> k \<le> 10 \<and> SERVO_ID s2 = ID s1
               \<and> wire (trace s2) = wire (trace s1) @ concat (replicate k ping_round) @ [Load waiting]
               \<and> STATE s2 = WAIT \<and> TIMEOUT s2 = 1 \<and> COMMAND_SOURCE s2 = ID s1
               \<and> COMMAND_ERROR s2 = 0"
      then obtain k where k: "1 \<le> k" "k \<le> 10" "SERVO_ID s2 = ID s1"
        "wire (trace s2) = wire (trace s1) @ concat (replicate k ping_round) @ [Load waiting]"
        "STATE s2 = WAIT" "TIMEOUT s2 = 1" "COMMAND_SOURCE s2 = ID s1" "COMMAND_ERROR s2 = 0"
        by blast
      from a k id1 have "ID s2 = SERVO_ID s2" by simp
      with ih have e: "s' = s2" by simp
      have "[k] \<noteq> [] \<and> (\<forall>j\<in>set [k]. 1 \<le> j \<and> j \<le> 10)
          \<and> (\<forall>j\<in>set (butlast [k]). j = 10)
          \<and> wire (trace s') = wire (trace s)
               @ concat (map (reID_round (SERVO_ID s) (ID s)) [k]) @ [Load waiting]"
        using k e w1 by (simp add: reID_round_def)
      then have "\<exists>ks. ks \<noteq> [] \<and> (\<forall>k\<in>set ks. 1 \<le> k \<and> k \<le> 10) \<and> (\<forall>k\<in>set (butlast ks). k = 10)
                \<and> wire (trace s') = wire (trace s)
                     @ concat (map (reID_round (SERVO_ID s) (ID s)) ks) @ [Load waiting]"
        by blast
      with e k a id1 False show ?thesis by simp
    qed
  qed
qed


section \<open>What the ID assignment has read when it returns\<close>

text \<open>
  The loops of the ID assignment read the servo line from the front.  With a
  \<open>cReadChar\<close> that takes the byte, the servo's ID changes in them only when the last
  six bytes read are a status packet of the servo that has the module's ID and reports
  no error.
\<close>

lemma kept_front: "kept s s' \<Longrightarrow> front q s s'"
  by (simp add: kept_def front_def)








section \<open>Running the loops on a concrete state\<close>

text \<open>
  Each loop unfolds once when its guard is decided.  With these rules, and congruence
  rules that keep the simplifier out of a continuation until its argument is known, the
  simplifier runs the model on a concrete state.
\<close>

lemma settle_now: "TIMEOUT (read_TIMEOUT s) \<noteq> 0 \<Longrightarrow> configToggle_settle s = Some (read_TIMEOUT s)"
  by (subst configToggle_settle.simps) (simp add: Let_def)

lemma settle_later: "TIMEOUT (read_TIMEOUT s) = 0 \<Longrightarrow> configToggle_settle s = configToggle_settle (read_TIMEOUT s)"
  by (subst configToggle_settle.simps) (simp add: Let_def)

lemma listen_now: "TIMEOUT (read_TIMEOUT s) \<noteq> 0 \<Longrightarrow> takeAction_listen i s = Some (i, read_TIMEOUT s)"
  by (subst takeAction_listen.simps) (simp add: Let_def)

lemma listen_later:
  "TIMEOUT (read_TIMEOUT s) = 0 \<Longrightarrow> takeAction_listen i s = do {
           (r, s) \<leftarrow> commandReady (read_TIMEOUT s);
           if r \<noteq> 0 then
             (if COMMAND_ERROR s = 0 then
                (if COMMAND_SOURCE s = ID s then do {
                   let s = s\<lparr>TIMEOUT := 1\<rparr>;
                   let i = SERVO_COMM_ATTEMPTS;
                   let s = s\<lparr>SERVO_ID := ID s\<rparr>;
                   s \<leftarrow> configToggle WAIT s;
                   takeAction_listen i s
                 }
                 else takeAction_listen i s)
              else takeAction_listen i s)
           else takeAction_listen i s
         }"
  by (subst takeAction_listen.simps) (simp add: Let_def)

lemma attempts_more:
  "i < 10 \<Longrightarrow> takeAction_attempts i s = do {
        s \<leftarrow> servoInstruction BROADCAST PING_LENGTH PING_SERVO 0 0 s;
        (i, s) \<leftarrow> takeAction_listen i s;
        takeAction_attempts (i + 1) s
      }"
  by (subst takeAction_attempts.simps) simp

lemma attempts_done: "\<not> i < 10 \<Longrightarrow> takeAction_attempts i s = Some s"
  by (subst takeAction_attempts.simps) simp

lemma reID_more:
  "ID s \<noteq> SERVO_ID s \<Longrightarrow> takeAction_reID s = do {
        s \<leftarrow> servoInstruction (SERVO_ID s) WRITE_LENGTH WRITE_SERVO ID_ADDRESS (ID s) s;
        s \<leftarrow> takeAction_attempts 0 s;
        takeAction_reID s
      }"
  by (subst takeAction_reID.simps) simp

lemma reID_done: "ID s = SERVO_ID s \<Longrightarrow> takeAction_reID s = Some s"
  by (subst takeAction_reID.simps) simp

lemmas run_defs = configToggle_def configToggle_unload_def configToggle_load_def
  configToggle_attach_def unloadConfig_def unloadAllConfigs_def servoInstruction_def
  commandReady_def cReadChar_def cGetChar_def driver_defs read_TIMEOUT_def time_passes_def TIMEOUT_ISR_def
  expired_def count_down_def drop_timer_def Let_def
  settle_now settle_later listen_now listen_later attempts_more attempts_done reID_more reID_done

lemma bind_weak_cong: "m = m' \<Longrightarrow> Option.bind m f = Option.bind m' f"
  by simp


section \<open>The ID assignment branch\<close>

lemma sent_concat: "sent t (concat xss) = concat (map (sent t) xss)"
  by (induction xss) simp_all

lemma sent_servo_round [simp]: "sent t (servo_round p) = (if t = TX_014 then p else [])"
  by (cases t) (simp_all add: servo_round_def)

lemma concat_replicate_Nil [simp]: "concat (replicate k []) = ([] :: 'a list)"
  by (induction k) simp_all

lemma sent_23_reID_rounds [simp]:
  "sent TX_23 (concat (map (reID_round sid new_id) ks)) = []"
  by (induction ks) (simp_all add: reID_round_def write_round_def ping_round_def sent_concat)

lemma assigned_range: "1 \<le> (p :: byte) \<Longrightarrow> p \<le> 250 \<Longrightarrow> 0 < p \<and> p < 251"
  by (simp add: word_le_nat_alt word_less_nat_alt)

lemma takeAction_assign:
  assumes "COMMAND_TYPE s = ID_ASSIGNMENT" and "COMMAND_DESTINATION s = ID s"
    and "1 \<le> COMMAND_PARAM s" and "COMMAND_PARAM s \<le> 250"
  shows "takeAction s = do {
      s \<leftarrow> assignedID (s\<lparr>ID := COMMAND_PARAM s, CONFIGURED := 1\<rparr>);
      if ID s \<noteq> SERVO_ID s then takeAction_reID s else Some s }"
  using assms assigned_range[of "COMMAND_PARAM s"]
  by (simp add: takeAction_ID_ASSIGNMENT Let_def)

lemma sent_assign_ack [simp]: "sent t (assign_ack p) = [248, 248, p, 0, 202, 85, 85]"
  by (simp add: assign_ack_def)

lemma assign_effect:
  assumes "COMMAND_TYPE s = ID_ASSIGNMENT" and "COMMAND_DESTINATION s = ID s"
    and "1 \<le> COMMAND_PARAM s" and "COMMAND_PARAM s \<le> 250"
    and "takeAction s = Some s'"
  shows "ID s' = COMMAND_PARAM s \<and> CONFIGURED s' = 1
    \<and> (COMMAND_PARAM s = SERVO_ID s \<longrightarrow>
          wire (trace s') = wire (trace s) @ assign_ack (COMMAND_PARAM s)
          \<and> TIMEOUT s' = 0 \<and> STATE s' = WAIT \<and> SERVO_ID s' = SERVO_ID s)
    \<and> (COMMAND_PARAM s \<noteq> SERVO_ID s \<longrightarrow>
          SERVO_ID s' = COMMAND_PARAM s \<and> STATE s' = WAIT \<and> TIMEOUT s' = 1
          \<and> COMMAND_SOURCE s' = COMMAND_PARAM s \<and> COMMAND_ERROR s' = 0
          \<and> (\<exists>ks. ks \<noteq> [] \<and> (\<forall>k\<in>set ks. 1 \<le> k \<and> k \<le> 10) \<and> (\<forall>k\<in>set (butlast ks). k = 10)
                \<and> wire (trace s') = wire (trace s) @ assign_ack (COMMAND_PARAM s)
                     @ concat (map (reID_round (SERVO_ID s) (COMMAND_PARAM s)) ks) @ [Load waiting]))"
proof -
  define s0 where "s0 = s\<lparr>ID := COMMAND_PARAM s, CONFIGURED := 1\<rparr>"
  from assms obtain s1 where a: "assignedID s0 = Some s1"
    and r: "(if ID s1 \<noteq> SERVO_ID s1 then takeAction_reID s1 else Some s1) = Some s'"
    by (auto simp: takeAction_assign s0_def split: Option.bind_splits)
  from assignedID_effect[OF a]
  have k: "kept s0 s1" and st: "STATE s1 = WAIT" "TIMEOUT s1 = 0"
    and w: "wire (trace s1) = wire (trace s) @ assign_ack (COMMAND_PARAM s)"
    by (simp_all add: s0_def assign_ack_def)
  from k have f: "ID s1 = COMMAND_PARAM s" "CONFIGURED s1 = 1" "SERVO_ID s1 = SERVO_ID s"
    by (simp_all add: kept_def s0_def)
  show ?thesis
  proof (cases "COMMAND_PARAM s = SERVO_ID s")
    case True
    with r f have "s' = s1" by simp
    with True f st w show ?thesis by simp
  next
    case False
    with r f have "takeAction_reID s1 = Some s'" by simp
    from reID_effect[OF this] False f w show ?thesis by simp
  qed
qed




section \<open>A servo reply that is accepted\<close>






section \<open>Listening for a child\<close>

lemma childListen_loop_effect:
  "childListen_loop s = Some r \<Longrightarrow>
     ID (snd r) = ID s \<and> CONFIGURED (snd r) = CONFIGURED s \<and> SERVO_ID (snd r) = SERVO_ID s
     \<and> trace (snd r) = trace s \<and> STATE (snd r) = STATE s"
proof (induction s r rule: childListen_loop.raw_induct[rotated 1, consumes 1])
  case (1 loop s r)
  define s1 where "s1 = read_TIMEOUT s"
  show ?case
  proof (cases "TIMEOUT s1 \<noteq> 0")
    case True
    with 1(2) have "r = (0, s1)" by (simp add: Let_def s1_def)
    then show ?thesis by (simp add: s1_def)
  next
    case False
    with 1(2) obtain rr s2 where cr: "commandReady s1 = Some (rr, s2)"
      by (auto simp: Let_def s1_def split: Option.bind_splits)
    note c2 = coreD[OF commandReady_core[OF cr]]
    show ?thesis
    proof (cases "rr \<noteq> 0")
      case True
      with False cr 1(2) have "r = (1, s2)" by (auto simp: Let_def s1_def[symmetric])
      with c2 False show ?thesis by (simp add: s1_def)
    next
      case z: False
      with False cr 1(2) have "loop s2 = Some r" by (auto simp: Let_def s1_def[symmetric])
      from "1.IH"[OF this] c2 show ?thesis by (simp add: s1_def)
    qed
  qed
qed

lemma childListen_effect:
  assumes "childListen s = Some (r, s')"
  shows "ID s' = ID s \<and> CONFIGURED s' = CONFIGURED s \<and> SERVO_ID s' = SERVO_ID s
    \<and> (r = 0 \<longrightarrow> TIMEOUT s' = 0 \<and> STATE s' = WAIT) \<and> (r \<noteq> 0 \<longrightarrow> STATE s' = HELLO_MODE)
    \<and> sent t (trace s') = sent t (trace s)"
proof -
  from assms obtain s1 ret s2 where a: "configToggle HELLO_MODE s = Some s1"
    and l: "childListen_loop s1 = Some (ret, s2)"
    by (auto simp: childListen_def split: Option.bind_splits)
  note e1 = configToggle_effect[OF a]
  note e2 = childListen_loop_effect[OF l, simplified]
  from e1 have s1: "sent t (trace s1) = sent t (trace s)" "kept s s1"
    by (simp_all add: sent_from_wire loads_def)
  show ?thesis
  proof (cases "ret \<noteq> 0")
    case True
    with assms a l have "s' = s2" "r = 1" by (simp_all add: childListen_def)
    with e1 e2 s1 True show ?thesis by (simp add: kept_def)
  next
    case False
    with assms a l obtain s3 where
      c: "configToggle WAIT ((TIMEOUT_Stop HELLO_TIMEOUT s2)\<lparr>TIMEOUT := 0\<rparr>) = Some s3" and "s' = s3"
      and "r = 0"
      by (auto simp: childListen_def Let_def split: Option.bind_splits)
    from configToggle_effect[OF c] this(2,3) e2 s1 show ?thesis
      by (simp add: kept_def sent_from_wire loads_def driver_defs)
  qed
qed

lemma childResponse_loop_effect:
  "childResponse_loop cr s = Some r \<Longrightarrow>
     ID (snd r) = ID s \<and> CONFIGURED (snd r) = CONFIGURED s \<and> SERVO_ID (snd r) = SERVO_ID s
     \<and> trace (snd r) = trace s \<and> STATE (snd r) = STATE s"
proof (induction cr s r rule: childResponse_loop.raw_induct[rotated 1, consumes 1])
  case (1 loop cr s r)
  define s1 where "s1 = read_TIMEOUT s"
  show ?case
  proof (cases "cr \<noteq> 0 \<or> TIMEOUT s1 \<noteq> 0")
    case True
    with 1(2) have "r = (cr, s) \<or> r = (cr, s1)"
      by (cases "cr \<noteq> 0") (auto simp: Let_def s1_def)
    then show ?thesis by (auto simp: s1_def)
  next
    case False
    with 1(2) obtain rr s2 where cr: "commandReady s1 = Some (rr, s2)"
      by (auto simp: Let_def s1_def split: Option.bind_splits)
    note c2 = coreD[OF commandReady_core[OF cr]]
    from False cr 1(2) have "loop (if rr \<noteq> 0 then 1 else cr) s2 = Some r"
      by (auto simp: Let_def s1_def[symmetric])
    from "1.IH"[OF this] c2 show ?thesis by (simp add: s1_def)
  qed
qed

lemma childResponse_effect:
  assumes "childResponse s = Some (r, s')"
  shows "ID s' = ID s \<and> CONFIGURED s' = CONFIGURED s \<and> SERVO_ID s' = SERVO_ID s \<and> TIMEOUT s' = 0
    \<and> STATE s' = WAIT \<and> sent t (trace s') = sent t (trace s)"
proof -
  define mode :: int where "mode = (if CHILD s = PORT_A then RESPONSE_1 else if CHILD s = PORT_B then RESPONSE_2
     else if CHILD s = PORT_C then RESPONSE_3 else if CHILD s = PORT_D then RESPONSE_4 else 0)"
  have m: "(if CHILD s = PORT_A then configToggle RESPONSE_1 s
        else if CHILD s = PORT_B then configToggle RESPONSE_2 s
        else if CHILD s = PORT_C then configToggle RESPONSE_3 s
        else if CHILD s = PORT_D then configToggle RESPONSE_4 s
        else Some s) = (if mode = 0 then Some s else configToggle mode s)"
    by (simp add: mode_def)
  from assms obtain s1 cr s2 where a: "(if mode = 0 then Some s else configToggle mode s) = Some s1"
    and l: "childResponse_loop 0 s1 = Some (cr, s2)"
    unfolding childResponse_def Let_def m
    by (auto split: Option.bind_splits)
  define s3 where "s3 = (if CHILD s2 = PORT_A then TIMEOUT_Stop CHILD_1_TIMEOUT s2
        else if CHILD s2 = PORT_B then TIMEOUT_Stop CHILD_2_TIMEOUT s2
        else if CHILD s2 = PORT_C then TIMEOUT_Stop CHILD_3_TIMEOUT s2
        else if CHILD s2 = PORT_D then TIMEOUT_Stop CHILD_4_TIMEOUT s2
        else s2)"
  from assms a l have c: "configToggle WAIT (s3\<lparr>TIMEOUT := 0\<rparr>) = Some s'"
    unfolding childResponse_def Let_def m s3_def
    by (auto split: Option.bind_splits)
  have e1: "ID s1 = ID s \<and> CONFIGURED s1 = CONFIGURED s \<and> SERVO_ID s1 = SERVO_ID s
      \<and> sent t (trace s1) = sent t (trace s)"
  proof (cases "mode = 0")
    case True with a show ?thesis by simp
  next
    case False
    with a have "configToggle mode s = Some s1" by simp
    from configToggle_effect[OF this] show ?thesis
      by (auto simp: kept_def sent_from_wire loads_def)
  qed
  note e2 = childResponse_loop_effect[OF l, simplified]
  have e3: "ID s3 = ID s2 \<and> CONFIGURED s3 = CONFIGURED s2 \<and> SERVO_ID s3 = SERVO_ID s2
      \<and> sent t (trace s3) = sent t (trace s2)"
    by (simp add: s3_def driver_defs)
  from configToggle_effect[OF c] e1 e2 e3 show ?thesis
    by (simp add: kept_def sent_from_wire loads_def)
qed

lemma cReadChar_quiet:
  assumes "timers s = []" and "cReadChar r s = (c, s')"
  shows "timers s' = [] \<and> TIMEOUT s' = TIMEOUT s \<and> STATE s' = STATE s
    \<and> (c = 0 \<or> c \<in> set (rx s r)) \<and> set (rx s' r) \<subseteq> set (rx s r)"
  using assms
  by (auto simp: cReadChar_def Let_def time_passes_idle split: list.splits if_splits)

lemma childResponse_loop_hangs:
  "childResponse_loop cr s = Some r \<Longrightarrow>
     \<not> (cr = 0 \<and> timers s = [] \<and> TIMEOUT s = 0 \<and> STATE s = WAIT
        \<and> START_TRANSMIT \<notin> set (rx s WAIT_RECV))"
proof (induction cr s r rule: childResponse_loop.raw_induct[rotated 1, consumes 1])
  case (1 loop cr s r)
  show ?case
  proof
    assume h: "cr = 0 \<and> timers s = [] \<and> TIMEOUT s = 0 \<and> STATE s = WAIT
        \<and> START_TRANSMIT \<notin> set (rx s WAIT_RECV)"
    then have s1: "read_TIMEOUT s = s" by (simp add: read_TIMEOUT_def time_passes_idle)
    obtain c s2 where c: "cReadChar WAIT_RECV s = (c, s2)" by (cases "cReadChar WAIT_RECV s")
    from cReadChar_quiet[OF _ c] h
    have h2: "timers s2 = [] \<and> TIMEOUT s2 = 0 \<and> STATE s2 = WAIT
        \<and> START_TRANSMIT \<notin> set (rx s2 WAIT_RECV)" and ne: "c \<noteq> START_TRANSMIT"
      by auto
    from h c ne have cr: "commandReady s = Some (0, s2)"
      by (simp add: commandReady_def)
    from 1(2) h s1 cr have "loop 0 s2 = Some r"
      by (simp add: Let_def)
    from "1.IH"[OF this] h2 show False by simp
  qed
qed

lemma childResponse_hangs:
  assumes "CHILD s = 0" and "timers s = []" and "TIMEOUT s = 0" and "STATE s = WAIT"
    and "START_TRANSMIT \<notin> set (rx s WAIT_RECV)"
  shows "childResponse s = None"
proof -
  have "childResponse_loop 0 s = None"
    using childResponse_loop_hangs[of 0 s] assms by (cases "childResponse_loop 0 s") auto
  then show ?thesis using assms by (simp add: childResponse_def)
qed

lemma childResponse_loop_done: "cr \<noteq> 0 \<Longrightarrow> childResponse_loop cr s = Some (cr, s)"
  by (subst childResponse_loop.simps) simp

lemma childResponse_loop_now:
  "cr = 0 \<Longrightarrow> TIMEOUT (read_TIMEOUT s) \<noteq> 0 \<Longrightarrow> childResponse_loop cr s = Some (cr, read_TIMEOUT s)"
  by (subst childResponse_loop.simps) (simp add: Let_def)

lemma childResponse_loop_later:
  "cr = 0 \<Longrightarrow> TIMEOUT (read_TIMEOUT s) = 0 \<Longrightarrow> childResponse_loop cr s = do {
              (r, s) \<leftarrow> commandReady (read_TIMEOUT s);
              if r \<noteq> 0 then childResponse_loop 1 s
              else childResponse_loop cr s
            }"
  by (subst childResponse_loop.simps) (simp add: Let_def)

lemma childListen_loop_now:
  "TIMEOUT (read_TIMEOUT s) \<noteq> 0 \<Longrightarrow> childListen_loop s = Some (0, read_TIMEOUT s)"
  by (subst childListen_loop.simps) (simp add: Let_def)

lemma childListen_loop_later:
  "TIMEOUT (read_TIMEOUT s) = 0 \<Longrightarrow> childListen_loop s = do {
           (r, s) \<leftarrow> commandReady (read_TIMEOUT s);
           if r \<noteq> 0 then Some (1, s) else childListen_loop s
         }"
  by (subst childListen_loop.simps) (simp add: Let_def)

lemmas child_run_defs = childResponse_def childListen_def childResponse_loop_done
  childResponse_loop_now childResponse_loop_later childListen_loop_now childListen_loop_later

section \<open>A poll with a timer running ends\<close>

text \<open>
  When a timer is running and the role reads its receiver without waiting, every unit
  of time brings the timer nearer to its interrupt: childListen returns from any state,
  and childResponse returns whenever \<open>CHILD\<close> is one of the four port letters.
\<close>

lemma commandReady_response:
  "STATE s = RESPONSE_1 \<or> STATE s = RESPONSE_2 \<or> STATE s = RESPONSE_3 \<or> STATE s = RESPONSE_4
     \<Longrightarrow> \<exists>r s'. commandReady s = Some (r, s')"
  by (elim disjE) (simp_all add: commandReady_def split: prod.splits)

lemma commandReady_hello:
  "STATE s = HELLO_MODE \<Longrightarrow> \<exists>r s'. commandReady s = Some (r, s')"
  by (simp add: commandReady_def split: prod.splits)

lemma count_down_due:
  assumes "list_ex (\<lambda>(t, m). m \<le> Suc n) ts" and "\<not> expired ts"
  shows "list_ex (\<lambda>(t, m). m \<le> n) (count_down p ts)"
proof -
  from assms(1) obtain t m where tm: "(t, m) \<in> set ts" "m \<le> Suc n"
    by (auto simp: list_ex_iff)
  with assms(2) have "m \<noteq> 0" by (auto simp: expired_def list_ex_iff)
  with tm have "(t, m - 1) \<in> set (count_down p ts)" "m - 1 \<le> n"
    by (force simp: count_down_def image_iff)+
  then show ?thesis by (auto simp: list_ex_iff)
qed

lemma time_passes_due: "due (Suc n) s \<Longrightarrow> due n (time_passes s)"
proof (cases "TIMEOUT s = 1 \<or> expired (timers s)")
  case True
  then show ?thesis by (auto simp: due_def time_passes_def TIMEOUT_ISR_def Let_def)
next
  case False
  assume "due (Suc n) s"
  with False have "list_ex (\<lambda>(t, m). m \<le> Suc n) (timers s)" by (simp add: due_def)
  from count_down_due[OF this] False show ?thesis
    by (simp add: due_def time_passes_def Let_def)
qed

lemma time_passes_fires: "due 0 s \<Longrightarrow> TIMEOUT (time_passes s) = 1"
  by (auto simp: due_def time_passes_def TIMEOUT_ISR_def Let_def expired_def list_ex_iff)

lemma due_mono:
  assumes "due n s" and "n \<le> m"
  shows "due m s"
proof (cases "TIMEOUT s = 1")
  case True
  then show ?thesis by (simp add: due_def)
next
  case False
  with assms(1) obtain t k where tk: "(t, k) \<in> set (timers s)" "k \<le> n"
    by (auto simp: due_def list_ex_iff)
  with assms(2) have "k \<le> m" by simp
  with tk(1) have "list_ex (\<lambda>(t, j). j \<le> m) (timers s)"
    unfolding list_ex_iff by (intro bexI[of _ "(t, k)"]) simp_all
  then show ?thesis by (simp add: due_def)
qed

lemma time_passes_keeps_due: "due n s \<Longrightarrow> due n (time_passes s)"
proof (cases n)
  case 0
  assume "due n s"
  with 0 have "TIMEOUT (time_passes s) = 1" using time_passes_fires by simp
  then show ?thesis by (simp add: due_def)
next
  case (Suc m)
  assume "due n s"
  with Suc have "due m (time_passes s)" using time_passes_due by simp
  then show ?thesis using Suc due_mono by simp
qed

lemma due_upd [simp]:
  "due n (s\<lparr>COMMAND_SOURCE := a\<rparr>) = due n s"
  "due n (s\<lparr>COMMAND_DESTINATION := a\<rparr>) = due n s"
  "due n (s\<lparr>COMMAND_TYPE := a\<rparr>) = due n s"
  "due n (s\<lparr>COMMAND_PARAM := a\<rparr>) = due n s"
  "due n (s\<lparr>COMMAND_LENGTH := a\<rparr>) = due n s"
  "due n (s\<lparr>COMMAND_ERROR := a\<rparr>) = due n s"
  "due n (s\<lparr>CHILD := a\<rparr>) = due n s"
  "due n (s\<lparr>rx := f\<rparr>) = due n s"
  by (simp_all add: due_def)

lemma cReadChar_due: "cReadChar r s = (c, s') \<Longrightarrow> due n s \<longrightarrow> due n s'"
  by (auto simp: cReadChar_def Let_def time_passes_keeps_due split: list.splits if_splits)

lemma cGetChar_due: "cGetChar r s = Some (c, s') \<Longrightarrow> due n s \<longrightarrow> due n s'"
  by (auto simp: cGetChar_def time_passes_keeps_due split: list.splits)

lemma commandReady_due:
  assumes "commandReady s = Some (r, s')" and "due n s"
  shows "due n s'"
proof -
  consider (w) "STATE s = WAIT" | (i) "STATE s = INITIALIZE" | (h) "STATE s = HELLO_MODE"
    | (o) "STATE s \<noteq> WAIT \<and> STATE s \<noteq> INITIALIZE \<and> STATE s \<noteq> HELLO_MODE"
    by blast
  then show ?thesis
  proof cases
    case w
    with assms show ?thesis
      by (auto simp: commandReady_def Let_def split: if_splits Option.bind_splits prod.splits
          dest!: cGetChar_due[where n = n] cReadChar_due[where n = n])
  next
    case i
    with assms show ?thesis
      by (auto simp: commandReady_def Let_def split: if_splits Option.bind_splits prod.splits
          dest!: cGetChar_due[where n = n] cReadChar_due[where n = n])
  next
    case h
    with assms show ?thesis
      by (auto simp: commandReady_def Let_def split: if_splits prod.splits
          dest!: cReadChar_due[where n = n])
  next
    case o
    with assms show ?thesis
      by (auto simp: commandReady_def Let_def split: if_splits prod.splits
          dest!: cReadChar_due[where n = n])
  qed
qed

lemma read_TIMEOUT_due: "due (Suc n) s \<Longrightarrow> due n (read_TIMEOUT s)"
  by (simp add: read_TIMEOUT_def time_passes_due)

lemma read_TIMEOUT_fires: "due 0 s \<Longrightarrow> TIMEOUT (read_TIMEOUT s) = 1"
  by (simp add: read_TIMEOUT_def time_passes_fires)

lemma childResponse_loop_returns:
  assumes "due n s"
    and "STATE s = RESPONSE_1 \<or> STATE s = RESPONSE_2 \<or> STATE s = RESPONSE_3 \<or> STATE s = RESPONSE_4"
  shows "\<exists>r. childResponse_loop cr s = Some r"
  using assms
proof (induction n arbitrary: s cr)
  case 0
  show ?case
  proof (cases "cr \<noteq> 0")
    case True
    then show ?thesis by (simp add: childResponse_loop_done)
  next
    case False
    with read_TIMEOUT_fires[OF "0.prems"(1)] show ?thesis
      by (simp add: childResponse_loop_now)
  qed
next
  case (Suc n)
  show ?case
  proof (cases "cr \<noteq> 0 \<or> TIMEOUT (read_TIMEOUT s) \<noteq> 0")
    case True
    then show ?thesis
      by (cases "cr \<noteq> 0") (auto simp: childResponse_loop_done childResponse_loop_now)
  next
    case False
    define s1 where "s1 = read_TIMEOUT s"
    from Suc.prems(2) have st: "STATE s1 = RESPONSE_1 \<or> STATE s1 = RESPONSE_2
        \<or> STATE s1 = RESPONSE_3 \<or> STATE s1 = RESPONSE_4"
      by (simp add: s1_def)
    from commandReady_response[OF st] obtain rr s2 where c: "commandReady s1 = Some (rr, s2)" by blast
    note c2 = coreD[OF commandReady_core[OF c]]
    have tm: "due n s2"
      using commandReady_due[OF c] read_TIMEOUT_due[OF Suc.prems(1)] by (simp add: s1_def)
    from st c2 have st2: "STATE s2 = RESPONSE_1 \<or> STATE s2 = RESPONSE_2
        \<or> STATE s2 = RESPONSE_3 \<or> STATE s2 = RESPONSE_4" by simp
    from Suc.IH[OF tm st2] obtain r1 r2 where "childResponse_loop 1 s2 = Some r1"
      "childResponse_loop cr s2 = Some r2" by blast
    with False c show ?thesis
      by (simp add: childResponse_loop_later s1_def[symmetric])
  qed
qed

lemma childListen_loop_returns:
  assumes "due n s" and "STATE s = HELLO_MODE"
  shows "\<exists>r. childListen_loop s = Some r"
  using assms
proof (induction n arbitrary: s)
  case 0
  with read_TIMEOUT_fires[OF "0.prems"(1)] show ?case
    by (simp add: childListen_loop_now)
next
  case (Suc n)
  show ?case
  proof (cases "TIMEOUT (read_TIMEOUT s) \<noteq> 0")
    case True
    then show ?thesis by (simp add: childListen_loop_now)
  next
    case False
    define s1 where "s1 = read_TIMEOUT s"
    from Suc.prems(2) have st: "STATE s1 = HELLO_MODE" by (simp add: s1_def)
    from commandReady_hello[OF st] obtain rr s2 where c: "commandReady s1 = Some (rr, s2)" by blast
    note c2 = coreD[OF commandReady_core[OF c]]
    have "due n s2" "STATE s2 = HELLO_MODE"
      using commandReady_due[OF c] read_TIMEOUT_due[OF Suc.prems(1)] c2 st by (simp_all add: s1_def)
    from Suc.IH[OF this] obtain r where "childListen_loop s2 = Some r" by blast
    with False c show ?thesis
      by (cases "rr \<noteq> 0") (simp_all add: childListen_loop_later s1_def[symmetric])
  qed
qed

lemma running_due: "(t, n) \<in> set (timers s) \<Longrightarrow> due n s"
  by (force simp: due_def list_ex_iff)

lemma configToggle_arms:
  assumes "configToggle mode s = Some s'" and "3 \<le> mode" and "mode \<le> 8"
  shows "\<exists>t. (t, period s t) \<in> set (timers s')"
proof -
  from assms(1) obtain s2 where l: "configToggle_load mode (configToggle_unload s) = Some s2"
    and s': "s' = configToggle_attach s2"
    by (auto simp: configToggle_def Let_def split: Option.bind_splits)
  have p: "period (configToggle_unload s) = period s" using unload_effect[of s] by (simp add: kept_def)
  from assms(2,3) have "mode = 3 \<or> mode = 4 \<or> mode = 5 \<or> mode = 6 \<or> mode = 7 \<or> mode = 8" by arith
  with l p have "\<exists>t. (t, period s t) \<in> set (timers s2)"
    by (elim disjE) (force simp: configToggle_load_def Let_def driver_defs)+
  with attach_effect[of s2] s' show ?thesis by simp
qed

lemma childListen_returns: "\<exists>r s'. childListen s = Some (r, s')"
proof -
  obtain s1 where a: "configToggle HELLO_MODE s = Some s1" using configToggle_returns by blast
  from configToggle_arms[OF a] obtain t where t: "(t, period s t) \<in> set (timers s1)" by auto
  from configToggle_effect[OF a] have st: "STATE s1 = HELLO_MODE" by simp
  from childListen_loop_returns[OF running_due[OF t] st] obtain ret s2 where l: "childListen_loop s1 = Some (ret, s2)"
    by auto
  obtain s3 where c: "configToggle WAIT ((TIMEOUT_Stop HELLO_TIMEOUT s2)\<lparr>TIMEOUT := 0\<rparr>) = Some s3"
    using configToggle_returns by blast
  show ?thesis using a l c
    by (cases "ret \<noteq> 0") (simp_all add: childListen_def Let_def)
qed

lemma childResponse_returns:
  assumes "CHILD s = PORT_A \<or> CHILD s = PORT_B \<or> CHILD s = PORT_C \<or> CHILD s = PORT_D"
  shows "\<exists>r s'. childResponse s = Some (r, s')"
proof -
  define mode :: int where "mode = (if CHILD s = PORT_A then RESPONSE_1 else if CHILD s = PORT_B then RESPONSE_2
     else if CHILD s = PORT_C then RESPONSE_3 else RESPONSE_4)"
  have m: "(if CHILD s = PORT_A then configToggle RESPONSE_1 s
        else if CHILD s = PORT_B then configToggle RESPONSE_2 s
        else if CHILD s = PORT_C then configToggle RESPONSE_3 s
        else if CHILD s = PORT_D then configToggle RESPONSE_4 s
        else Some s) = configToggle mode s"
    using assms by (auto simp: mode_def)
  have r: "3 \<le> mode" "mode \<le> 6" by (simp_all add: mode_def)
  obtain s1 where a: "configToggle mode s = Some s1" using configToggle_returns by blast
  from r configToggle_arms[OF a] obtain t where t: "(t, period s t) \<in> set (timers s1)" by auto
  from configToggle_effect[OF a] r have st: "STATE s1 = mode" by simp
  then have st': "STATE s1 = RESPONSE_1 \<or> STATE s1 = RESPONSE_2 \<or> STATE s1 = RESPONSE_3 \<or> STATE s1 = RESPONSE_4"
    by (auto simp: mode_def)
  from childResponse_loop_returns[OF running_due[OF t] st', of 0] obtain cr s2 where l: "childResponse_loop 0 s1 = Some (cr, s2)"
    by auto
  define s3 where "s3 = (if CHILD s2 = PORT_A then TIMEOUT_Stop CHILD_1_TIMEOUT s2
        else if CHILD s2 = PORT_B then TIMEOUT_Stop CHILD_2_TIMEOUT s2
        else if CHILD s2 = PORT_C then TIMEOUT_Stop CHILD_3_TIMEOUT s2
        else if CHILD s2 = PORT_D then TIMEOUT_Stop CHILD_4_TIMEOUT s2
        else s2)"
  obtain s4 where c: "configToggle WAIT (s3\<lparr>TIMEOUT := 0\<rparr>) = Some s4"
    using configToggle_returns by blast
  show ?thesis
    unfolding childResponse_def Let_def m using a l c
    by (simp add: s3_def)
qed


section \<open>The loops of servoFinder\<close>

lemma servoFinder_listen_effect:
  "servoFinder_listen i s = Some r \<Longrightarrow> ID (snd r) = ID s \<and> CONFIGURED (snd r) = CONFIGURED s"
proof (induction i s r rule: servoFinder_listen.raw_induct[rotated 1, consumes 1])
  case (1 listen i s r)
  define s1 where "s1 = read_TIMEOUT s"
  show ?case
  proof (cases "TIMEOUT s1 \<noteq> 0")
    case True
    with 1(2) have "r = (i, s1)" by (simp add: Let_def s1_def)
    then show ?thesis by (simp add: s1_def)
  next
    case False
    with 1(2) obtain rr s2 where cr: "commandReady s1 = Some (rr, s2)"
      by (auto simp: Let_def s1_def split: Option.bind_splits)
    note c2 = coreD[OF commandReady_core[OF cr]]
    from False cr 1(2) obtain j s3 where rec: "listen j s3 = Some r"
      and s3: "ID s3 = ID s2 \<and> CONFIGURED s3 = CONFIGURED s2"
      by (auto simp: Let_def s1_def[symmetric] split: if_splits)
    from "1.IH"[OF rec] s3 c2 show ?thesis by (simp add: s1_def)
  qed
qed

lemma servoFinder_pings_effect:
  "servoFinder_pings i s = Some s' \<Longrightarrow> ID s' = ID s \<and> CONFIGURED s' = CONFIGURED s"
proof (induction i s s' rule: servoFinder_pings.raw_induct[rotated 1, consumes 1])
  case (1 pings i s s')
  show ?case
  proof (cases "i < 10")
    case False
    with 1(2) show ?thesis by simp
  next
    case True
    with 1(2) obtain s1 i2 s2 where si: "servoInstruction BROADCAST PING_LENGTH PING_SERVO 0 0 s = Some s1"
      and li: "servoFinder_listen i s1 = Some (i2, s2)"
      and rec: "pings (i2 + 1) s2 = Some s'"
      by (auto split: Option.bind_splits)
    from servoInstruction_wire[OF si] servoFinder_listen_effect[OF li] "1.IH"[OF rec]
    show ?thesis by (simp add: kept_def)
  qed
qed

lemma servoFinder_find_effect:
  "servoFinder_find fw s = Some s' \<Longrightarrow> ID s' = ID s \<and> CONFIGURED s' = CONFIGURED s"
proof (induction fw s s' rule: servoFinder_find.raw_induct[rotated 1, consumes 1])
  case (1 find fw s s')
  show ?case
  proof (cases "SERVO_ID s = SERVO_START")
    case False
    with 1(2) show ?thesis by simp
  next
    case True
    with 1(2) obtain s1 fw' where p: "servoFinder_pings 0 s = Some s1"
      and rec: "find fw' s1 = Some s'"
      by (auto simp: Let_def split: Option.bind_splits)
    from servoFinder_pings_effect[OF p] "1.IH"[OF rec] show ?thesis by simp
  qed
qed

lemma level_listen_effect:
  "servoFinder_level_listen i l s = Some r \<Longrightarrow>
     ID (snd (snd r)) = ID s \<and> CONFIGURED (snd (snd r)) = CONFIGURED s
     \<and> (TIMEOUT s = 1 \<longrightarrow> r = (i, l, read_TIMEOUT s))
     \<and> ((fst r = i \<and> fst (snd r) = l)
        \<or> (fst r = 10 \<and> fst (snd r) = STATUS_RET_LEVEL \<and> TIMEOUT (snd (snd r)) = 1))"
proof (induction i l s r rule: servoFinder_level_listen.raw_induct[rotated 1, consumes 1])
  case (1 listen i l s r)
  define s1 where "s1 = read_TIMEOUT s"
  show ?case
  proof (cases "TIMEOUT s1 \<noteq> 0")
    case True
    with 1(2) have "r = (i, l, s1)" by (simp add: Let_def s1_def)
    then show ?thesis by (simp add: s1_def)
  next
    case False
    then have t0: "TIMEOUT s = 0" using read_TIMEOUT_clear[of s] by (simp add: s1_def)
    from False 1(2) obtain rr s2 where cr: "commandReady s1 = Some (rr, s2)"
      by (auto simp: Let_def s1_def split: Option.bind_splits)
    note c2 = coreD[OF commandReady_core[OF cr]]
    show ?thesis
    proof (cases "rr \<noteq> 0 \<and> COMMAND_ERROR s2 = 0 \<and> COMMAND_PARAM s2 = STATUS_RET_LEVEL")
      case True
      with False cr 1(2) have rec: "listen 10 1 (s2\<lparr>TIMEOUT := 1\<rparr>) = Some r"
        by (auto simp: Let_def s1_def[symmetric])
      from "1.IH"[OF rec] have "r = (10, 1, read_TIMEOUT (s2\<lparr>TIMEOUT := 1\<rparr>))" by simp
      then show ?thesis using c2 t0 by (simp add: s1_def read_TIMEOUT_set)
    next
      case other: False
      with False cr 1(2) have "listen i l s2 = Some r \<or> listen i l (s2\<lparr>TIMEOUT := 1\<rparr>) = Some r"
        by (auto simp: Let_def s1_def[symmetric] split: if_splits)
      then show ?thesis
      proof
        assume "listen i l s2 = Some r"
        from "1.IH"[OF this] c2 t0 show ?thesis by (auto simp: s1_def)
      next
        assume "listen i l (s2\<lparr>TIMEOUT := 1\<rparr>) = Some r"
        from "1.IH"[OF this] c2 t0 show ?thesis by (auto simp: s1_def)
      qed
    qed
  qed
qed

lemma servoFinder_reads_effect:
  "servoFinder_reads i l s = Some r \<Longrightarrow>
     ID (snd r) = ID s \<and> CONFIGURED (snd r) = CONFIGURED s
     \<and> (10 \<le> i \<longrightarrow> r = (l, s))
     \<and> (fst r = l \<or> (fst r = STATUS_RET_LEVEL \<and> TIMEOUT (snd r) = 1))"
proof (induction i l s r rule: servoFinder_reads.raw_induct[rotated 1, consumes 1])
  case (1 reads i l s r)
  show ?case
  proof (cases "i < 10")
    case False
    with 1(2) show ?thesis by auto
  next
    case True
    with 1(2) obtain s1 i2 l2 s2 where
      si: "servoInstruction (SERVO_ID s) READ_LENGTH READ_SERVO STATUS_RET_ADDRESS 1 s = Some s1"
      and li: "servoFinder_level_listen i l s1 = Some (i2, l2, s2)"
      and rec: "reads (i2 + 1) l2 s2 = Some r"
      by (auto split: Option.bind_splits)
    from servoInstruction_wire[OF si] have k: "ID s1 = ID s" "CONFIGURED s1 = CONFIGURED s"
      by (simp_all add: kept_def)
    note l = level_listen_effect[OF li, simplified]
    note ih = "1.IH"[OF rec]
    from l have "(i2 = i \<and> l2 = l) \<or> (i2 = 10 \<and> l2 = 1 \<and> TIMEOUT s2 = 1)" by auto
    then show ?thesis
    proof
      assume "i2 = i \<and> l2 = l"
      with ih l k True show ?thesis by auto
    next
      assume "i2 = 10 \<and> l2 = 1 \<and> TIMEOUT s2 = 1"
      with ih l k True show ?thesis by auto
    qed
  qed
qed

lemma servoFinder_level_effect:
  "servoFinder_level l s = Some s' \<Longrightarrow>
     ID s' = ID s \<and> CONFIGURED s' = CONFIGURED s
     \<and> (l = STATUS_RET_LEVEL \<longrightarrow> s' = s) \<and> (l \<noteq> STATUS_RET_LEVEL \<longrightarrow> TIMEOUT s' = 1)"
proof (induction l s s' rule: servoFinder_level.raw_induct[rotated 1, consumes 1])
  case (1 level l s s')
  show ?case
  proof (cases "l = STATUS_RET_LEVEL")
    case True
    with 1(2) show ?thesis by simp
  next
    case False
    with 1(2) obtain l2 s2 where rd: "servoFinder_reads 0 l s = Some (l2, s2)"
      and rec: "level l2 s2 = Some s'"
      by (auto split: Option.bind_splits)
    note r = servoFinder_reads_effect[OF rd, simplified]
    note ih = "1.IH"[OF rec]
    show ?thesis
    proof (cases "l2 = 1")
      case True
      with r False have "TIMEOUT s2 = 1" by auto
      with ih True r False show ?thesis by simp
    next
      case l2: False
      with ih r False show ?thesis by simp
    qed
  qed
qed

lemma servoFinder_effect:
  assumes "servoFinder s = Some s'"
  shows "ID s' = ID s \<and> CONFIGURED s' = CONFIGURED s \<and> TIMEOUT s' = 1 \<and> STATE s' = WAIT"
proof -
  from assms obtain s1 s2 where f: "servoFinder_find 0 s = Some s1"
    and l: "servoFinder_level 3 s1 = Some s2" and c: "configToggle WAIT s2 = Some s'"
    by (auto simp: servoFinder_def Let_def split: Option.bind_splits)
  from servoFinder_find_effect[OF f] servoFinder_level_effect[OF l] configToggle_effect[OF c]
  show ?thesis by (simp add: kept_def)
qed

lemma servoFinder_listen_now:
  "TIMEOUT (read_TIMEOUT s) \<noteq> 0 \<Longrightarrow> servoFinder_listen i s = Some (i, read_TIMEOUT s)"
  by (subst servoFinder_listen.simps) (simp add: Let_def)

lemma servoFinder_listen_later:
  "TIMEOUT (read_TIMEOUT s) = 0 \<Longrightarrow> servoFinder_listen i s = do {
           (r, s) \<leftarrow> commandReady (read_TIMEOUT s);
           if r \<noteq> 0 then
             (if COMMAND_ERROR s = 0 then
                (if COMMAND_SOURCE s \<ge> SERVO_ID_MIN \<and> COMMAND_SOURCE s \<le> SERVO_ID_MAX then do {
                   let s = s\<lparr>TIMEOUT := 1\<rparr>;
                   let s = s\<lparr>SERVO_ID := COMMAND_SOURCE s\<rparr>;
                   let i = SERVO_COMM_ATTEMPTS;
                   servoFinder_listen i s
                 }
                 else servoFinder_listen i (s\<lparr>TIMEOUT := 1\<rparr>))
              else servoFinder_listen i s)
           else servoFinder_listen i s
         }"
  by (subst servoFinder_listen.simps) (simp add: Let_def)

lemma servoFinder_pings_more:
  "i < 10 \<Longrightarrow> servoFinder_pings i s = do {
        s \<leftarrow> servoInstruction BROADCAST PING_LENGTH PING_SERVO 0 0 s;
        (i, s) \<leftarrow> servoFinder_listen i s;
        servoFinder_pings (i + 1) s
      }"
  by (subst servoFinder_pings.simps) simp

lemma servoFinder_pings_done: "\<not> i < 10 \<Longrightarrow> servoFinder_pings i s = Some s"
  by (subst servoFinder_pings.simps) simp

lemma servoFinder_find_more:
  "SERVO_ID s = 255 \<Longrightarrow> servoFinder_find flashWrite s = do {
        s \<leftarrow> servoFinder_pings 0 s;
        let flashWrite = (if SERVO_ID s = SERVO_START \<and> flashWrite = 0 then 1 else flashWrite);
        servoFinder_find flashWrite s
      }"
  by (subst servoFinder_find.simps) simp

lemma servoFinder_find_done: "SERVO_ID s \<noteq> 255 \<Longrightarrow> servoFinder_find flashWrite s = Some s"
  by (subst servoFinder_find.simps) simp

lemma level_listen_now:
  "TIMEOUT (read_TIMEOUT s) \<noteq> 0 \<Longrightarrow>
     servoFinder_level_listen i l s = Some (i, l, read_TIMEOUT s)"
  by (subst servoFinder_level_listen.simps) (simp add: Let_def)

lemma level_listen_later:
  "TIMEOUT (read_TIMEOUT s) = 0 \<Longrightarrow> servoFinder_level_listen i status_return_level s = do {
           (r, s) \<leftarrow> commandReady (read_TIMEOUT s);
           if r \<noteq> 0 then
             (if COMMAND_ERROR s = 0 then
                (if COMMAND_PARAM s = STATUS_RET_LEVEL then do {
                   let s = s\<lparr>TIMEOUT := 1\<rparr>;
                   let status_return_level = COMMAND_PARAM s;
                   let i = SERVO_COMM_ATTEMPTS;
                   servoFinder_level_listen i status_return_level s
                 }
                 else servoFinder_level_listen i status_return_level (s\<lparr>TIMEOUT := 1\<rparr>))
              else servoFinder_level_listen i status_return_level s)
           else servoFinder_level_listen i status_return_level s
         }"
  by (subst servoFinder_level_listen.simps) (simp add: Let_def)

lemma servoFinder_reads_more:
  "i < 10 \<Longrightarrow> servoFinder_reads i status_return_level s = do {
        s \<leftarrow> servoInstruction (SERVO_ID s) READ_LENGTH READ_SERVO STATUS_RET_ADDRESS 1 s;
        (i, status_return_level, s) \<leftarrow> servoFinder_level_listen i status_return_level s;
        servoFinder_reads (i + 1) status_return_level s
      }"
  by (subst servoFinder_reads.simps) simp

lemma servoFinder_reads_done:
  "\<not> i < 10 \<Longrightarrow> servoFinder_reads i status_return_level s = Some (status_return_level, s)"
  by (subst servoFinder_reads.simps) simp

lemma servoFinder_level_more:
  "status_return_level \<noteq> 1 \<Longrightarrow> servoFinder_level status_return_level s = do {
        (status_return_level, s) \<leftarrow> servoFinder_reads 0 status_return_level s;
        servoFinder_level status_return_level s
      }"
  by (subst servoFinder_level.simps) simp

lemma servoFinder_level_done: "servoFinder_level 1 s = Some s"
  by (subst servoFinder_level.simps) simp

lemmas boot_run_defs = main_def main_init_def main_round_def servoFinder_def
  servoFinder_listen_now servoFinder_listen_later servoFinder_pings_more servoFinder_pings_done
  servoFinder_find_more servoFinder_find_done level_listen_now level_listen_later
  servoFinder_reads_more servoFinder_reads_done servoFinder_level_more servoFinder_level_done

lemma boot_finds_servo:
  "map_option (\<lambda>s. (ID s, CONFIGURED s, SERVO_ID s, STATE s, TIMEOUT s)) (main 0 boot) = Some (251, 0, 5, 1, 1)"
  by (simp add: boot_def power_on_def boot_run_defs run_defs cong: bind_weak_cong let_weak_cong)

lemma boot_runs:
  "map_option (\<lambda>s. (ID s, CONFIGURED s, SERVO_ID s, STATE s, TIMEOUT s)) (main 1 boot) = Some (5, 1, 5, 1, 0)"
  by (simp add: boot_def power_on_def boot_run_defs run_defs takeAction_ID_ASSIGNMENT assignedID_def
      cong: bind_weak_cong let_weak_cong)


section \<open>Which timers run on return\<close>


lemma drop_timer_sub: "set (drop_timer t ts) \<subseteq> set ts"
  by (auto simp: drop_timer_def)

lemma running_drop: "running t (s\<lparr>timers := drop_timer u (timers s)\<rparr>) \<Longrightarrow> running t s"
  by (auto simp: running_def drop_timer_def)




lemma time_passes_running [simp]: "running t (time_passes s) = running t s"
  by (force simp: running_def time_passes_def Let_def count_down_def image_iff)



lemma settle_running: "configToggle_settle s = Some s' \<Longrightarrow> running t s' = running t s"
proof (induction rule: configToggle_settle.raw_induct[rotated 1, consumes 1])
  case (1 settle s s')
  then show ?case
    by (auto simp: Let_def read_TIMEOUT_def split: if_splits dest!: "1.IH")
qed

lemma running_upd [simp]:
  "running t (s\<lparr>TIMEOUT := a\<rparr>) = running t s"
  "running t (s\<lparr>STATE := b\<rparr>) = running t s"
  "running t (emit e s) = running t s"
  by (simp_all add: running_def emit_def)








section \<open>The invariant\<close>

lemma keptD: "kept s s' \<Longrightarrow> ID s' = ID s \<and> CONFIGURED s' = CONFIGURED s"
  by (simp add: kept_def)

lemma id_ok_same: "ID s' = ID s \<and> CONFIGURED s' = CONFIGURED s \<Longrightarrow> id_ok s \<Longrightarrow> id_ok s'"
  by (simp add: id_ok_def)

lemma takeAction_id_ok:
  assumes "id_ok s" and "takeAction s = Some s'"
  shows "id_ok s'"
proof -
  consider (hello) "COMMAND_TYPE s = HELLO_BYTE" | (ping) "COMMAND_TYPE s = PING"
    | (assign) "COMMAND_TYPE s = ID_ASSIGNMENT" | (clear) "COMMAND_TYPE s = CLEAR_CONFIG"
    | (other) "COMMAND_TYPE s \<noteq> HELLO_BYTE \<and> COMMAND_TYPE s \<noteq> PING
        \<and> COMMAND_TYPE s \<noteq> ID_ASSIGNMENT \<and> COMMAND_TYPE s \<noteq> CLEAR_CONFIG"
    by blast
  then show ?thesis
  proof cases
    case hello
    show ?thesis
    proof (cases "CONFIGURED s = 0")
      case True
      with hello assms(2) have "sayHello s = Some s'" by (simp add: takeAction_HELLO_BYTE)
      from sayHello_effect[OF this] assms(1) show ?thesis by (simp add: id_ok_def kept_def)
    next
      case False
      show ?thesis
      proof (cases "CHILD s = 0")
        case True
        with hello False assms(2) obtain heard s1 where l: "childListen s = Some (heard, s1)"
          and r: "(if heard \<noteq> 0 then sayHello s1 else Some s1) = Some s'"
          by (auto simp: takeAction_HELLO_BYTE split: Option.bind_splits)
        from childListen_effect[OF l, of TX_014] assms(1) have 1: "id_ok s1" by (simp add: id_ok_def)
        show ?thesis
        proof (cases "heard \<noteq> 0")
          case True
          with r have "sayHello s1 = Some s'" by simp
          from sayHello_effect[OF this] 1 show ?thesis by (simp add: id_ok_def kept_def)
        next
          case False
          with r 1 show ?thesis by simp
        qed
      next
        case c: False
        with hello False assms(2) obtain r where "childResponse s = Some (r, s')"
          by (auto simp: takeAction_HELLO_BYTE split: Option.bind_splits)
        from childResponse_effect[OF this, of TX_014] assms(1) show ?thesis by (simp add: id_ok_def)
      qed
    qed
  next
    case ping
    show ?thesis
    proof (cases "COMMAND_DESTINATION s = ID s")
      case True
      with ping assms(2) have "pingResponse s = Some s'" by (simp add: takeAction_PING)
      from pingResponse_effect[OF this] assms(1) show ?thesis by (simp add: id_ok_def kept_def)
    next
      case False
      show ?thesis
      proof (cases "COMMAND_DESTINATION s > ID s")
        case True
        with ping False assms(2) obtain r where "childResponse s = Some (r, s')"
          by (auto simp: takeAction_PING split: Option.bind_splits)
        from childResponse_effect[OF this, of TX_014] assms(1) show ?thesis by (simp add: id_ok_def)
      next
        case f: False
        with ping False assms show ?thesis by (simp add: takeAction_PING)
      qed
    qed
  next
    case assign
    show ?thesis
    proof (cases "COMMAND_DESTINATION s = ID s")
      case True
      show ?thesis
      proof (cases "1 \<le> COMMAND_PARAM s \<and> COMMAND_PARAM s \<le> 250")
        case r: True
        with assign True assms(2) assign_effect[of s s'] show ?thesis by (simp add: id_ok_def)
      next
        case False
        then have "\<not> (COMMAND_PARAM s > MASTER_ID \<and> COMMAND_PARAM s < DEFAULT_ID)"
          by (simp add: word_le_nat_alt word_less_nat_alt) arith
        with assign True assms(2) have "s' = s" by (auto simp: takeAction_ID_ASSIGNMENT)
        with assms(1) show ?thesis by simp
      qed
    next
      case False
      show ?thesis
      proof (cases "COMMAND_DESTINATION s > ID s")
        case True
        with assign False assms(2) obtain r where "childResponse s = Some (r, s')"
          by (auto simp: takeAction_ID_ASSIGNMENT split: Option.bind_splits)
        from childResponse_effect[OF this, of TX_014] assms(1) show ?thesis by (simp add: id_ok_def)
      next
        case f: False
        with assign False assms show ?thesis by (simp add: takeAction_ID_ASSIGNMENT)
      qed
    qed
  next
    case clear
    obtain s1 where s1: "(if COMMAND_DESTINATION s = ID s then configCleared s else Some s) = Some s1"
      using configCleared_returns[of s] by (cases "COMMAND_DESTINATION s = ID s") auto
    have k: "kept s s1"
    proof (cases "COMMAND_DESTINATION s = ID s")
      case True
      with s1 have "configCleared s = Some s1" by simp
      from configCleared_effect[OF this] show ?thesis by simp
    next
      case False
      with s1 show ?thesis by simp
    qed
    from clear assms(2) s1 have "CONFIGURED s' = 0 \<or> (ID s' = ID s1 \<and> CONFIGURED s' = CONFIGURED s1)"
      by (auto simp: takeAction_CLEAR_CONFIG Let_def split: if_splits)
    with k assms(1) show ?thesis by (auto simp: id_ok_def kept_def)
  next
    case other
    with assms show ?thesis by (simp add: takeAction_other)
  qed
qed

lemma main_round_id_ok:
  assumes "id_ok s" and "main_round s = Some s'"
  shows "id_ok s'"
proof -
  from assms(2) obtain ready s1 where c: "commandReady s = Some (ready, s1)"
    and t: "(if ready \<noteq> 0 then takeAction s1 else Some s1) = Some s'"
    by (auto simp: main_round_def split: Option.bind_splits)
  from coreD[OF commandReady_core[OF c]] assms(1) have 1: "id_ok s1" by (simp add: id_ok_def)
  show ?thesis
  proof (cases "ready \<noteq> 0")
    case True
    with t have "takeAction s1 = Some s'" by simp
    with 1 show ?thesis by (rule takeAction_id_ok)
  next
    case False
    with t 1 show ?thesis by simp
  qed
qed

lemma main_loop_id_ok: "id_ok s \<Longrightarrow> main_loop n s = Some s' \<Longrightarrow> id_ok s'"
proof (induction n arbitrary: s)
  case 0
  then show ?case by simp
next
  case (Suc n)
  from Suc.prems(2) obtain s1 where r: "main_round s = Some s1" and l: "main_loop n s1 = Some s'"
    by (auto split: Option.bind_splits)
  from main_round_id_ok[OF Suc.prems(1) r] have "id_ok s1" .
  from Suc.IH[OF this l] show ?case .
qed

lemma main_id_ok:
  assumes "main n s = Some s'"
  shows "id_ok s'"
proof -
  from assms obtain s1 where f: "servoFinder (main_init s) = Some s1" and l: "main_loop n s1 = Some s'"
    by (auto simp: main_def Let_def split: Option.bind_splits)
  have "id_ok (main_init s)" by (simp add: id_ok_def main_init_def Let_def emit_def)
  with servoFinder_effect[OF f] have "id_ok s1" by (simp add: id_ok_def)
  from main_loop_id_ok[OF this l] show ?thesis .
qed


section \<open>A run from power-up into a poll without a timer\<close>

lemma boot_ping_configured:
  "map_option (\<lambda>s. (ID s, CONFIGURED s, CHILD s, STATE s, TIMEOUT s, timers s)) (main 1 boot_ping)
     = Some (5, 1, 0, 1, 0, [])"
  by (simp add: boot_ping_def power_on_def boot_run_defs run_defs takeAction_ID_ASSIGNMENT assignedID_def
      cong: bind_weak_cong let_weak_cong)

lemma boot_ping_hangs: "main (Suc (Suc (Suc (Suc 0)))) boot_ping = None"
  by (simp add: boot_ping_def power_on_def boot_run_defs run_defs takeAction_ID_ASSIGNMENT assignedID_def
      takeAction_PING childResponse_hangs
      cong: bind_weak_cong let_weak_cong)


section \<open>Properties of the firmware\<close>

subsection \<open>CLEAR_CONFIG\<close>

text \<open>
  Claim C2.  For every frame of type CLEAR_CONFIG the handler returns; it emits a
  CONFIG_CLEARED response (to the master, on both transmitter groups) if and only if the
  destination is the module's current ID, and otherwise makes no driver call at all;
  whenever the destination is BROADCAST or at most the module's ID, afterwards
  \<open>ID = 251\<close>, \<open>CONFIGURED = 0\<close> and \<open>CHILD = 0\<close>; \<open>SERVO_ID\<close> is never changed.
\<close>

theorem C2_clear_config:
  assumes "COMMAND_TYPE s = CLEAR_CONFIG"
  shows "\<exists>s'. takeAction s = Some s'
     \<and> (if COMMAND_DESTINATION s = ID s
        then sent TX_014 (trace s') = sent TX_014 (trace s) @ [248, 248, ID s, MASTER_ID, CONFIG_CLEARED, 85, 85]
           \<and> sent TX_23 (trace s') = sent TX_23 (trace s) @ [248, 248, ID s, MASTER_ID, CONFIG_CLEARED, 85, 85]
        else trace s' = trace s)
     \<and> (COMMAND_DESTINATION s = BROADCAST \<or> COMMAND_DESTINATION s \<le> ID s
          \<longrightarrow> ID s' = DEFAULT_ID \<and> CONFIGURED s' = 0 \<and> CHILD s' = 0)
     \<and> SERVO_ID s' = SERVO_ID s"
proof (cases "COMMAND_DESTINATION s = ID s")
  case True
  obtain s1 where s1: "configCleared s = Some s1" using configCleared_returns by blast
  from configCleared_effect[OF s1]
  have k: "kept s s1" and
    w: "\<And>t. sent t (trace s1) = sent t (trace s) @ [248, 248, ID s, 0, 205, 85, 85]"
    by (simp_all add: sent_from_wire)
  show ?thesis using assms True s1 k w
    by (simp add: takeAction_CLEAR_CONFIG Let_def kept_def)
next
  case False
  then show ?thesis using assms
    by (simp add: takeAction_CLEAR_CONFIG Let_def)
qed

theorem C2_clear_config_witness:
  "COMMAND_TYPE clear_broadcast = CLEAR_CONFIG
   \<and> (\<exists>s'. takeAction clear_broadcast = Some s' \<and> trace s' = trace clear_broadcast
         \<and> ID s' = 251 \<and> CONFIGURED s' = 0 \<and> CHILD s' = 0 \<and> SERVO_ID s' = 5)"
  using C2_clear_config[of clear_broadcast]
  by (simp add: clear_broadcast_def module_5_def power_on_def)

subsection \<open>The servo checksum\<close>

text \<open>
  Claim C5.  For every command tuple (id, length, instruction, address, value),
  servoInstruction returns, and the last byte \<open>c\<close> of the packet it writes satisfies
  \<open>(id + length + instruction + address + value + c) mod 256 = 255\<close>.  The witness is the
  re-ID write (1, 4, 3, 3, 3), whose checksum is 241.
\<close>

theorem C5_checksum:
  "\<exists>s' c. servoInstruction i l n a v s = Some s'
     \<and> sent TX_014 (trace s') = sent TX_014 (trace s) @
         (if n = PING_SERVO then [255, 255, i, l, n, c] else [255, 255, i, l, n, a, v, c])
     \<and> (unat i + unat l + unat n + unat a + unat v + unat c) mod 256 = 255"
proof -
  obtain s' where s': "servoInstruction i l n a v s = Some s'"
    using servoInstruction_returns by blast
  from servoInstruction_effect[OF s']
  have "sent TX_014 (trace s') = sent TX_014 (trace s) @ servo_frame i l n a v"
    by (simp add: sent_from_wire[where t = TX_014] comp_def)
  with s' checksum_law[of i l n a v] show ?thesis
    by (auto simp: servo_frame_def)
qed

theorem C5_checksum_witness:
  "\<exists>s'. servoInstruction 1 WRITE_LENGTH WRITE_SERVO ID_ADDRESS 3 fresh = Some s'
     \<and> sent TX_014 (trace s') = [255, 255, 1, 4, 3, 3, 3, 241]"
proof -
  from C5_checksum[of 1 WRITE_LENGTH WRITE_SERVO ID_ADDRESS 3 fresh]
  obtain s' c where s': "servoInstruction 1 4 3 3 3 fresh = Some s'"
    and t: "sent TX_014 (trace s') = [255, 255, 1, 4, 3, 3, 3, c]"
    and c: "(14 + unat c) mod 256 = 255"
    by (auto simp: fresh_def power_on_def)
  have u: "unat c < 256" using unsigned_less[of c, where 'a = nat] by simp
  have "unat c = 241"
  proof (cases "unat c < 242")
    case True
    with c show ?thesis by simp
  next
    case False
    with u have "(14 + unat c) mod 256 = 14 + unat c - 256"
      by (simp add: le_mod_geq)
    with c False u show ?thesis by simp
  qed
  then have "of_nat (unat c) = (of_nat 241 :: byte)" by simp
  then have "c = 241" by simp
  with s' t show ?thesis by simp
qed

subsection \<open>An ID assignment out of range\<close>

text \<open>
  Claim C10.  A frame of type ID_ASSIGN addressed to the module's own ID whose parameter
  is 0 or at least 251 is ignored: the handler returns the state it was given, so
  \<open>ID\<close>, \<open>CONFIGURED\<close>, \<open>CHILD\<close> and \<open>SERVO_ID\<close> are unchanged and nothing is added to
  the trace.
\<close>

theorem C10_assign_out_of_range:
  assumes "COMMAND_TYPE s = ID_ASSIGNMENT" and "COMMAND_DESTINATION s = ID s"
    and "COMMAND_PARAM s = 0 \<or> 251 \<le> COMMAND_PARAM s"
  shows "takeAction s = Some s"
  using assms by (auto simp: takeAction_ID_ASSIGNMENT word_gt_0)

theorem C10_assign_out_of_range_witness:
  "COMMAND_TYPE assign_251 = ID_ASSIGNMENT
   \<and> COMMAND_DESTINATION assign_251 = ID assign_251
   \<and> (COMMAND_PARAM assign_251 = 0 \<or> 251 \<le> COMMAND_PARAM assign_251)
   \<and> takeAction assign_251 = Some assign_251"
  using C10_assign_out_of_range[of assign_251]
  by (simp add: assign_251_def fresh_def power_on_def)

subsection \<open>The response emitters\<close>

text \<open>
  Against claim C4 as stated: the fresh, unconfigured module that answers a HELLO writes
  its hello frame to TX_014 only; nothing is written to TX_23.
\<close>

theorem C4_hello_on_one_group:
  "map_option (sent TX_014 \<circ> trace) (takeAction hello_fresh) = Some [248, 248, 251, 0, 200, 0, 85, 85]
   \<and> map_option (sent TX_23 \<circ> trace) (takeAction hello_fresh) = Some []"
proof -
  obtain s' where a: "sayHello hello_fresh = Some s'" using sayHello_returns by blast
  have t: "takeAction hello_fresh = sayHello hello_fresh"
    by (simp add: takeAction_HELLO_BYTE hello_fresh_def fresh_def power_on_def)
  have "\<And>t. sent t (trace s') = sent t (wire (trace s'))" by (simp add: sent_wire)
  then show ?thesis using sayHello_effect[OF a] a t
    by (simp add: hello_fresh_def fresh_def power_on_def)
qed

text \<open>
  Claim C4, amended.  pingResponse, assignedID and configCleared each return, having loaded
  the response configuration, written their whole frame byte by byte to both transmitter
  groups, waited for TX_014 and then TX_23 to finish, and loaded the waiting
  configuration, in this order.  sayHello returns having done the same on TX_014 alone:
  it writes nothing to TX_23 and does not wait for it.
\<close>

theorem C4_response_emission:
  "(\<exists>s'. pingResponse s = Some s' \<and> STATE s' = WAIT
       \<and> wire (trace s') = wire (trace s) @ [Load my_response]
           @ on_both [248, 248, ID s, MASTER_ID, PING, 85, 85]
           @ [TxComplete TX_014, TxComplete TX_23, Load waiting])
   \<and> (\<exists>s'. assignedID s = Some s' \<and> STATE s' = WAIT
       \<and> wire (trace s') = wire (trace s) @ [Load my_response]
           @ on_both [248, 248, ID s, MASTER_ID, ID_ASSIGN_OK, 85, 85]
           @ [TxComplete TX_014, TxComplete TX_23, Load waiting])
   \<and> (\<exists>s'. configCleared s = Some s' \<and> STATE s' = WAIT
       \<and> wire (trace s') = wire (trace s) @ [Load my_response]
           @ on_both [248, 248, ID s, MASTER_ID, CONFIG_CLEARED, 85, 85]
           @ [TxComplete TX_014, TxComplete TX_23, Load waiting])
   \<and> (\<exists>s'. sayHello s = Some s' \<and> STATE s' = WAIT
       \<and> wire (trace s') = wire (trace s) @ [Load my_response]
           @ map (Put TX_014) [248, 248, ID s, MASTER_ID, HELLO_BYTE, CHILD s, 85, 85]
           @ [TxComplete TX_014, Load waiting])"
proof -
  obtain s1 where s1: "pingResponse s = Some s1" using pingResponse_returns by blast
  obtain s2 where s2: "assignedID s = Some s2" using assignedID_returns by blast
  obtain s3 where s3: "configCleared s = Some s3" using configCleared_returns by blast
  obtain s4 where s4: "sayHello s = Some s4" using sayHello_returns by blast
  show ?thesis
    using pingResponse_effect[OF s1] assignedID_effect[OF s2] configCleared_effect[OF s3]
      sayHello_effect[OF s4] s1 s2 s3 s4
    by simp
qed

theorem C4_response_emission_witness:
  "\<exists>s'. sayHello hello_fresh = Some s'
     \<and> sent TX_014 (trace s') = [248, 248, 251, 0, 200, 0, 85, 85]
     \<and> sent TX_23 (trace s') = []"
proof -
  from C4_response_emission[of hello_fresh]
  obtain s' where a: "sayHello hello_fresh = Some s'"
    and w: "wire (trace s') = wire (trace hello_fresh) @ [Load my_response]
           @ map (Put TX_014) [248, 248, ID hello_fresh, MASTER_ID, HELLO_BYTE, CHILD hello_fresh, 85, 85]
           @ [TxComplete TX_014, Load waiting]"
    by blast
  have "\<And>t. sent t (trace s') = sent t (wire (trace s'))" by (simp add: sent_wire)
  then show ?thesis using a
    unfolding w by (simp add: hello_fresh_def fresh_def power_on_def)
qed


subsection \<open>The frame reader in the WAIT role\<close>





subsection \<open>An ID assignment in range\<close>



subsection \<open>The re-ID procedure\<close>




subsection \<open>Polling without a timer\<close>

text \<open>
  Claim C9 fails on the code.  Module 5 has no child and no timer is running when it
  reads a PING for module 7: takeAction calls childResponse, which switches to no
  response role when \<open>CHILD\<close> is none of the four port letters, so no timer is started
  and the poll of \<open>TIMEOUT\<close> never ends: the handler does not return.  With a child on
  port A the same frame makes it start CHILD_1_TIMEOUT and return to WAIT (as
  \<open>childResponse_returns\<close> shows for every state with a child).  The state is
  one a run reaches: from power-up, after the servo is found and the master's frame has
  assigned ID 5 in the first round of \<open>main\<close>, the next two rounds read the two end
  bytes of that frame and the fourth reads the PING and does not return.
\<close>

theorem C9_child_response_without_timer:
  "timers ping_7 = [] \<and> takeAction ping_7 = None
   \<and> map_option STATE (takeAction ping_7_child) = Some WAIT
   \<and> map_option (\<lambda>s. (ID s, CONFIGURED s, CHILD s, STATE s, TIMEOUT s, timers s)) (main 1 boot_ping)
       = Some (5, 1, 0, WAIT, 0, [])
   \<and> main 4 boot_ping = None"
proof -
  have "childResponse ping_7 = None"
    by (rule childResponse_hangs) (simp_all add: ping_7_def power_on_def)
  then have "takeAction ping_7 = None"
    by (simp add: takeAction_PING ping_7_def power_on_def)
  moreover have "map_option STATE (takeAction ping_7_child) = Some WAIT"
    by (simp add: ping_7_child_def ping_7_def power_on_def takeAction_PING child_run_defs run_defs
        cong: bind_weak_cong let_weak_cong)
  moreover have "main 4 boot_ping = None"
    using boot_ping_hangs by (simp add: eval_nat_numeral)
  ultimately show ?thesis using boot_ping_configured by (simp add: ping_7_def power_on_def)
qed

subsection \<open>A configured module has an assigned ID\<close>

text \<open>
  Claim C7.  \<open>id_ok s\<close> says that \<open>CONFIGURED \<noteq> 0\<close> implies \<open>1 \<le> ID \<le> 250\<close>.  It holds in
  every state \<open>main\<close> reaches between two rounds of its loop, from any hardware state at
  power-up and for any input; and every operation keeps it: takeAction (ID assignment
  and configuration clear included), commandReady, the four response emitters,
  childListen, childResponse, servoFinder and configToggle.
\<close>

theorem C7_configured_has_id:
  "(main n s0 = Some s' \<longrightarrow> id_ok s')
   \<and> (id_ok s \<longrightarrow>
        (takeAction s = Some s' \<longrightarrow> id_ok s')
      \<and> (commandReady s = Some (r, s') \<longrightarrow> id_ok s')
      \<and> (sayHello s = Some s' \<longrightarrow> id_ok s')
      \<and> (pingResponse s = Some s' \<longrightarrow> id_ok s')
      \<and> (assignedID s = Some s' \<longrightarrow> id_ok s')
      \<and> (configCleared s = Some s' \<longrightarrow> id_ok s')
      \<and> (childListen s = Some (r, s') \<longrightarrow> id_ok s')
      \<and> (childResponse s = Some (r, s') \<longrightarrow> id_ok s')
      \<and> (servoFinder s = Some s' \<longrightarrow> id_ok s')
      \<and> (configToggle mode s = Some s' \<longrightarrow> id_ok s'))"
proof (intro conjI impI)
  assume "main n s0 = Some s'"
  then show "id_ok s'" by (rule main_id_ok)
next
  assume "id_ok s" and "takeAction s = Some s'"
  then show "id_ok s'" by (rule takeAction_id_ok)
next
  assume i: "id_ok s" and "commandReady s = Some (r, s')"
  from coreD[OF commandReady_core[OF this(2)]] i show "id_ok s'" by (simp add: id_ok_def)
next
  assume i: "id_ok s" and "sayHello s = Some s'"
  from sayHello_effect[OF this(2)] i show "id_ok s'" by (simp add: id_ok_def kept_def)
next
  assume i: "id_ok s" and "pingResponse s = Some s'"
  from pingResponse_effect[OF this(2)] i show "id_ok s'" by (simp add: id_ok_def kept_def)
next
  assume i: "id_ok s" and "assignedID s = Some s'"
  from assignedID_effect[OF this(2)] i show "id_ok s'" by (simp add: id_ok_def kept_def)
next
  assume i: "id_ok s" and "configCleared s = Some s'"
  from configCleared_effect[OF this(2)] i show "id_ok s'" by (simp add: id_ok_def kept_def)
next
  assume i: "id_ok s" and "childListen s = Some (r, s')"
  from childListen_effect[OF this(2), of TX_014] i show "id_ok s'" by (simp add: id_ok_def)
next
  assume i: "id_ok s" and "childResponse s = Some (r, s')"
  from childResponse_effect[OF this(2), of TX_014] i show "id_ok s'" by (simp add: id_ok_def)
next
  assume i: "id_ok s" and "servoFinder s = Some s'"
  from servoFinder_effect[OF this(2)] i show "id_ok s'" by (simp add: id_ok_def)
next
  assume i: "id_ok s" and "configToggle mode s = Some s'"
  from configToggle_effect[OF this(2)] i show "id_ok s'" by (simp add: id_ok_def kept_def)
qed

theorem C7_configured_has_id_witness:
  "\<exists>s'. main 1 boot = Some s' \<and> CONFIGURED s' = 1 \<and> 1 \<le> ID s' \<and> ID s' \<le> 250"
proof -
  from boot_runs obtain s' where r: "main 1 boot = Some s'" and c: "CONFIGURED s' = 1"
    by auto
  from C7_configured_has_id[of 1 boot s'] r have "id_ok s'" by simp
  with c have "1 \<le> ID s' \<and> ID s' \<le> 250" by (simp add: id_ok_def)
  with r c show ?thesis by blast
qed

subsection \<open>The TIMEOUT flag on return\<close>





end
